theory Spec2Isabelle
  imports Main
begin

section \<open>JavaScript values and objects\<close>

text \<open>
  A plain JavaScript object is an association list of its own enumerable properties in
  enumeration order (keys are never array indices here, so that order is insertion order).
  \<open>put\<close> stores a value under a key: an existing key keeps its place, a new key goes last.
  \<open>obj_set\<close> is the assignment \<^verbatim>\<open>o[k] = v\<close> on an object made with \<^verbatim>\<open>{}\<close>: the same, but for
  the key \<^verbatim>\<open>__proto__\<close>, which such an object inherits as a setter: the assignment then
  changes the prototype, or nothing, and the object's own properties stay as they are.
\<close>

type_synonym 'a obj = "(string \<times> 'a) list"

fun put :: "'a obj \<Rightarrow> string \<Rightarrow> 'a \<Rightarrow> 'a obj" where
  "put [] k v = [(k, v)]"
| "put ((k', v') # r) k v = (if k' = k then (k, v) # r else (k', v') # put r k v)"

definition obj_set :: "'a obj \<Rightarrow> string \<Rightarrow> 'a \<Rightarrow> 'a obj" where
  "obj_set ob k v = (if k = ''__proto__'' then ob else put ob k v)"

text \<open>
  The metadata values the builders carry along without looking inside: descriptions,
  default values, flags. \<open>JObject\<close> stands for an object found where such a value is
  expected; the builders never put one there.
\<close>

datatype jsv = JUndef | JNull | JBool bool | JNum int | JStr string | JObject

fun truthy :: "jsv \<Rightarrow> bool" where
  "truthy JUndef = False"
| "truthy JNull = False"
| "truthy (JBool b) = b"
| "truthy (JNum n) = (n \<noteq> 0)"
| "truthy (JStr s) = (s \<noteq> [])"
| "truthy JObject = True"

text \<open>The JavaScript \<^verbatim>\<open>a || b\<close> on such values.\<close>

definition js_or :: "jsv \<Rightarrow> jsv \<Rightarrow> jsv" where
  "js_or a b = (if truthy a then a else b)"

text \<open>
  What is thrown: a \<^verbatim>\<open>TypeError\<close> by the language (a property of \<^verbatim>\<open>undefined\<close>, a call of
  something that is no function), an \<^verbatim>\<open>Error\<close> by the schema library's constructors.
\<close>

datatype error = TypeError | Error

section \<open>Declarations: tcomb types and their proxies\<close>

text \<open>
  A tcomb type \<open>Tcomb i dn m\<close> is an object with an identity \<open>i\<close> (its address), a
  \<^verbatim>\<open>displayName\<close> \<open>dn\<close> (what \<^verbatim>\<open>t.getTypeName\<close> returns) and a \<^verbatim>\<open>meta\<close> object \<open>m\<close>. The members of \<open>meta\<close> that the source
  reads are \<open>kind\<close>, \<open>name\<close>, \<open>type\<close> (list, maybe), \<open>types\<close> (union), \<open>props\<close> (struct,
  interface) and \<open>map\<close> (enums); \<open>None\<close> is \<^verbatim>\<open>undefined\<close>.

  \<open>Proxy target handler\<close> is the object \<^verbatim>\<open>proxy(Type, props)\<close> returns: \<open>handler\<close> holds the
  properties named in \<^verbatim>\<open>keys\<close> (the traps store them on the handler, \<^verbatim>\<open>this[key]\<close>); every
  other property is read from and written to the target.

  \<^verbatim>\<open>proxy\<close> is not exported, so the proxies that exist are those of the four builders. Their
  handlers hold \<^verbatim>\<open>__typeDesc\<close> and \<^verbatim>\<open>interfaces\<close> (an array of declarations), or \<^verbatim>\<open>__typeDesc\<close>
  and \<^verbatim>\<open>__input\<close>, or \<^verbatim>\<open>__args\<close> (a mapping of declarations, or a declaration), \<^verbatim>\<open>__publishType\<close>
  and \<^verbatim>\<open>__desc\<close>, or \<^verbatim>\<open>__desc\<close> with or without \<^verbatim>\<open>__val\<close>: never \<^verbatim>\<open>meta\<close>, \<^verbatim>\<open>displayName\<close> or
  \<^verbatim>\<open>gql\<close>. A handler of another shape can be written down here; what the functions below
  do with a value of the wrong sort in one of these places is then a convention.
\<close>

datatype decl =
    Tcomb nat string meta
  | Proxy decl "(string \<times> pval) list"
and meta =
    Meta (kind: string) (name: "string option") (mtype: "decl option")
         (mtypes: "decl list option") (mprops: "(string \<times> decl) list option")
         (mmap: "(string \<times> jsv) list option")
and pval = PVal jsv | PDecl decl | PDecls "decl list" | PArgs "(string \<times> decl) list"

text \<open>Reading \<^verbatim>\<open>meta\<close>, \<^verbatim>\<open>displayName\<close> or the identity goes through every proxy to the tcomb type.\<close>

fun meta_of :: "decl \<Rightarrow> meta" where
  "meta_of (Tcomb i dn m) = m"
| "meta_of (Proxy t h) = meta_of t"

fun getTypeName :: "decl \<Rightarrow> string" where
  "getTypeName (Tcomb i dn m) = dn"
| "getTypeName (Proxy t h) = getTypeName t"

fun ident_of :: "decl \<Rightarrow> nat" where
  "ident_of (Tcomb i dn m) = i"
| "ident_of (Proxy t h) = ident_of t"

text \<open>
  The \<^verbatim>\<open>get\<close> trap, for the annotation properties (\<^verbatim>\<open>__typeDesc\<close>, \<^verbatim>\<open>interfaces\<close>, \<^verbatim>\<open>__input\<close>,
  \<^verbatim>\<open>__args\<close>, \<^verbatim>\<open>__publishType\<close>, \<^verbatim>\<open>__desc\<close>, \<^verbatim>\<open>__val\<close>, ...): a key among the proxy's keys is
  read from the handler, any other from the target. A tcomb type itself has none of them.
\<close>

fun getp :: "decl \<Rightarrow> string \<Rightarrow> pval" where
  "getp (Tcomb i dn m) key = PVal JUndef"
| "getp (Proxy obj h) key = (case map_of h key of Some v \<Rightarrow> v | None \<Rightarrow> getp obj key)"

fun truthy_prop :: "pval \<Rightarrow> bool" where
  "truthy_prop (PVal v) = truthy v"
| "truthy_prop (PDecl d) = True"
| "truthy_prop (PDecls ds) = True"
| "truthy_prop (PArgs as) = True"

fun jsv_of :: "pval \<Rightarrow> jsv" where
  "jsv_of (PVal v) = v"
| "jsv_of (PDecl d) = JObject"
| "jsv_of (PDecls ds) = JObject"
| "jsv_of (PArgs as) = JObject"

definition proxy :: "decl \<Rightarrow> (string \<times> pval) list \<Rightarrow> decl" where
  "proxy Type props = Proxy Type props"

section \<open>Schema types\<close>

text \<open>
  What \<^verbatim>\<open>transform\<close> passes around: \<^verbatim>\<open>undefined\<close>, the transient marker
  \<^verbatim>\<open>{maybe: true, type: _}\<close>, the prebuilt scalars, the objects made with \<^verbatim>\<open>new\<close>, and the
  three values that are no schema types and that a member inherited from
  \<^verbatim>\<open>Object.prototype\<close> can put in the place of one: a string, a declaration, and
  \<^verbatim>\<open>Object.prototype\<close> itself. Each object made with \<^verbatim>\<open>new\<close> carries the number of its
  allocation, so that equality of two such values is identity of the objects.

  \<^verbatim>\<open>new GraphQLList(x)\<close> throws unless \<^verbatim>\<open>x\<close> is a schema type, \<^verbatim>\<open>new GraphQLNonNull(x)\<close> unless
  \<^verbatim>\<open>x\<close> is a schema type other than a non-null type. The other constructors (of an enum,
  a union, an object type, a schema) record what they are given; what the schema library
  checks of a finished schema is outside this model.
\<close>

datatype okind = GraphQLObjectType | GraphQLInputObjectType | GraphQLInterfaceType

datatype nontype = JSString string | TcombType decl | ObjectPrototype

datatype sval =
    Undefined
  | Marker sval
  | NotAType nontype
  | Scalar string
  | GraphQLNonNull nat sval
  | GraphQLList nat sval
  | GraphQLEnumType nat string "(string \<times> jsv) list"
  | GraphQLUnionType nat string jsv "sval list"
  | NewType nat okind string jsv "sval list option" "(string \<times> field) list"
and field =
    FieldConfig (ftype: sval) (fdefaultValue: jsv) (fdescription: jsv)
          (fargs: "(string \<times> argument) list option")
and argument =
    ArgConfig (atype: sval) (adefaultValue: jsv) (adescription: jsv)

fun is_type :: "sval \<Rightarrow> bool" where
  "is_type Undefined = False"
| "is_type (Marker t) = False"
| "is_type (NotAType v) = False"
| "is_type x = True"

fun nullable_type :: "sval \<Rightarrow> bool" where
  "nullable_type (GraphQLNonNull i x) = False"
| "nullable_type x = is_type x"

text \<open>
  The heap: \<open>gql\<close> holds the \<^verbatim>\<open>gql\<close> property of the tcomb types that have one, by identity
  (the first binding of an identity is the current one); \<open>next_gql\<close> numbers the schema
  objects made so far, \<open>next_decl\<close> the tcomb types.
\<close>

record heap =
  gql :: "(nat \<times> sval) list"
  next_gql :: nat
  next_decl :: nat

definition get_gql :: "heap \<Rightarrow> decl \<Rightarrow> sval option" where
  "get_gql s type = map_of (gql s) (ident_of type)"

definition set_gql :: "decl \<Rightarrow> sval \<Rightarrow> heap \<Rightarrow> heap" where
  "set_gql type v s = s\<lparr>gql := (ident_of type, v) # gql s\<rparr>"

definition alloc :: "heap \<Rightarrow> nat \<times> heap" where
  "alloc s = (next_gql s, s\<lparr>next_gql := Suc (next_gql s)\<rparr>)"

section \<open>The type map\<close>

datatype builder = B_enums | B_inter | B_list | B_maybe | B_struct | B_union

text \<open>
  An entry of the type map is a constant schema type or one of the six builder functions.
  \<^verbatim>\<open>typeMap\<close> is an object literal, so a key it does not hold itself is looked up in
  \<^verbatim>\<open>Object.prototype\<close>: \<open>Inherited k\<close> is the member found there under \<open>k\<close>. (The map
  keeps this prototype, and \<^verbatim>\<open>Object.prototype\<close> its twelve standard members.)
\<close>

datatype entry = Const sval | Fn builder | Inherited string

definition typeMap :: "entry obj" where
  "typeMap =
    [(''Boolean'', Const (Scalar ''Boolean'')),
     (''Date'', Const (Scalar ''Date'')),
     (''ID'', Const (Scalar ''ID'')),
     (''Integer'', Const (Scalar ''Int'')),
     (''Number'', Const (Scalar ''Float'')),
     (''String'', Const (Scalar ''String'')),
     (''enums'', Fn B_enums),
     (''interface'', Fn B_inter),
     (''list'', Fn B_list),
     (''maybe'', Fn B_maybe),
     (''struct'', Fn B_struct),
     (''union'', Fn B_union)]"

definition Object_prototype :: "string list" where
  "Object_prototype =
    [''constructor'', ''__defineGetter__'', ''__defineSetter__'', ''hasOwnProperty'',
     ''__lookupGetter__'', ''__lookupSetter__'', ''isPrototypeOf'', ''propertyIsEnumerable'',
     ''toString'', ''valueOf'', ''__proto__'', ''toLocaleString'']"

text \<open>\<^verbatim>\<open>typeMap[key]\<close>: the map's own entry, or else the inherited member.\<close>

definition typeMap_get :: "entry obj \<Rightarrow> string \<Rightarrow> entry option" where
  "typeMap_get tm key =
     (case map_of tm key of
        Some e \<Rightarrow> Some e
      | None \<Rightarrow> if key \<in> set Object_prototype then Some (Inherited key) else None)"

text \<open>
  \<^verbatim>\<open>typeMap[type.meta.name] || typeMap[type.meta.kind]\<close>. An absent name is the key
  \<^verbatim>\<open>undefined\<close>; every entry is truthy except the constant \<^verbatim>\<open>undefined\<close>.
\<close>

fun truthy_entry :: "entry option \<Rightarrow> bool" where
  "truthy_entry None = False"
| "truthy_entry (Some (Const Undefined)) = False"
| "truthy_entry (Some e) = True"

definition name_key :: "string option \<Rightarrow> string" where
  "name_key n = (case n of None \<Rightarrow> ''undefined'' | Some k \<Rightarrow> k)"

definition lookup :: "entry obj \<Rightarrow> decl \<Rightarrow> entry option" where
  "lookup tm type =
     (if truthy_entry (typeMap_get tm (name_key (name (meta_of type))))
      then typeMap_get tm (name_key (name (meta_of type)))
      else typeMap_get tm (kind (meta_of type)))"

section \<open>Results and loops\<close>

text \<open>
  A call either throws (\<open>Inl\<close>) or returns a value and the heap it leaves. \<open>mapM\<close> is a
  \<^verbatim>\<open>map\<close> or \<^verbatim>\<open>reduce\<close> whose callback runs on each element in order, the first throw ending it.
\<close>

type_synonym 'a res = "error + ('a \<times> heap)"

fun mapM :: "('a \<Rightarrow> heap \<Rightarrow> 'b res) \<Rightarrow> 'a list \<Rightarrow> heap \<Rightarrow> ('b list) res" where
  "mapM f [] s = Inr ([], s)"
| "mapM f (x # xs) s =
     (case f x s of
        Inl e \<Rightarrow> Inl e
      | Inr (y, s') \<Rightarrow>
          (case mapM f xs s' of
             Inl e \<Rightarrow> Inl e
           | Inr (ys, s'') \<Rightarrow> Inr (y # ys, s'')))"

lemma mapM_cong [fundef_cong]:
  "xs = ys \<Longrightarrow> s = t \<Longrightarrow> (\<And>x u. x \<in> set ys \<Longrightarrow> f x u = g x u) \<Longrightarrow> mapM f xs s = mapM g ys t"
proof (induction ys arbitrary: xs s t)
  case Nil
  then show ?case by simp
next
  case (Cons y ys)
  have tl: "mapM f ys u = mapM g ys u" for u
    by (rule Cons.IH) (simp_all add: Cons.prems(3))
  show ?case
    using Cons.prems by (simp add: tl split: sum.splits prod.splits)
qed

section \<open>Sizes of nested declarations\<close>

text \<open>Every recursive call is on a declaration held inside the one at hand.\<close>

lemma size_meta_of: "size (meta_of d) < size d"
  by (induction d rule: meta_of.induct) auto

lemma size_list_mem: "x \<in> set xs \<Longrightarrow> f x < Suc (size_list f xs)"
  by (induction xs) auto

lemma size_mtype: "mtype (meta_of d) = Some e \<Longrightarrow> size e < size d"
  using size_meta_of [of d] by (cases "meta_of d") auto

lemma size_mtypes: "mtypes (meta_of d) = Some ts \<Longrightarrow> t \<in> set ts \<Longrightarrow> size t < size d"
  using size_meta_of [of d] size_list_mem [of t ts size] by (cases "meta_of d") auto

lemma size_mprops: "mprops (meta_of d) = Some ps \<Longrightarrow> (k, p) \<in> set ps \<Longrightarrow> size p < size d"
  using size_meta_of [of d] size_list_mem [of "(k, p)" ps "size_prod (\<lambda>x. 0) size"]
  by (cases "meta_of d") auto

lemma size_getp: "size (getp d k) < Suc (size d)"
proof (induction d k rule: getp.induct)
  case (1 i dn m key)
  then show ?case by simp
next
  case (2 obj h key)
  show ?case
  proof (cases "map_of h key")
    case None
    then show ?thesis using 2 by simp
  next
    case (Some v)
    then have "(key, v) \<in> set h" by (rule map_of_SomeD)
    from size_list_mem [OF this, of "size_prod (\<lambda>x. 0) size"] Some
    show ?thesis by simp
  qed
qed

lemma size_getp_PDecls: "getp d k = PDecls ds \<Longrightarrow> i \<in> set ds \<Longrightarrow> size i < size d"
  using size_getp [of d k] size_list_mem [of i ds size] by simp

lemma size_getp_PArgs: "getp d k = PArgs as \<Longrightarrow> (n, v) \<in> set as \<Longrightarrow> size v < size d"
  using size_getp [of d k] size_list_mem [of "(n, v)" as "size_prod (\<lambda>x. 0) size"] by simp

section \<open>The transformer\<close>

text \<open>The two constructors that check their argument.\<close>

definition new_GraphQLList :: "sval \<Rightarrow> heap \<Rightarrow> sval res" where
  "new_GraphQLList x s =
     (if is_type x then (let (i, s1) = alloc s in Inr (GraphQLList i x, s1)) else Inl Error)"

definition new_GraphQLNonNull :: "sval \<Rightarrow> heap \<Rightarrow> sval res" where
  "new_GraphQLNonNull x s =
     (if nullable_type x then (let (i, s1) = alloc s in Inr (GraphQLNonNull i x, s1))
      else Inl Error)"

text \<open>
  \<^verbatim>\<open>typeof(x) === 'function' ? x(type) : x\<close> for a member inherited from \<^verbatim>\<open>Object.prototype\<close>,
  called with no \<^verbatim>\<open>this\<close>. \<^verbatim>\<open>constructor\<close> is \<^verbatim>\<open>Object\<close> and returns its argument;
  \<^verbatim>\<open>toString\<close> returns a string; \<^verbatim>\<open>__proto__\<close> is no function but \<^verbatim>\<open>Object.prototype\<close> itself;
  every other member converts \<^verbatim>\<open>this\<close> to an object and throws.
\<close>

definition inherited :: "string \<Rightarrow> decl \<Rightarrow> heap \<Rightarrow> sval res" where
  "inherited key type s =
     (if key = ''constructor'' then Inr (NotAType (TcombType type), s)
      else if key = ''toString'' then Inr (NotAType (JSString ''[object Undefined]''), s)
      else if key = ''__proto__'' then Inr (NotAType ObjectPrototype, s)
      else Inl TypeError)"

text \<open>
  \<^verbatim>\<open>enums\<close>: \<^verbatim>\<open>type.gql || (type.gql = new GraphQLEnumType({name, values}))\<close>, \<^verbatim>\<open>values\<close> built
  from \<^verbatim>\<open>Object.entries(type.meta.map)\<close>, which throws on \<^verbatim>\<open>undefined\<close>.
\<close>

definition enums :: "decl \<Rightarrow> heap \<Rightarrow> sval res" where
  "enums type s =
     (case get_gql s type of
        Some g \<Rightarrow> Inr (g, s)
      | None \<Rightarrow>
          (case mmap (meta_of type) of
             None \<Rightarrow> Inl TypeError
           | Some m \<Rightarrow>
               (let (i, s1) = alloc s;
                    g = GraphQLEnumType i (getTypeName type) (foldl (\<lambda>values (k, v). obj_set values k v) [] m)
                in Inr (g, set_gql type g s1))))"

text \<open>
  \<^verbatim>\<open>transform\<close> and the builders it dispatches to. \<open>resolve\<close> is the value of \<^verbatim>\<open>x\<close> after the
  first two statements of \<^verbatim>\<open>transform\<close>. \<open>object_field\<close> and \<open>object_arg\<close> are the two
  \<^verbatim>\<open>reduce\<close> callbacks of \<^verbatim>\<open>object\<close>. Arguments of a constructor are evaluated before the
  object is allocated; in \<^verbatim>\<open>object\<close> the interfaces come before the fields, and \<^verbatim>\<open>type.gql\<close> is
  assigned last. \<^verbatim>\<open>x.maybe\<close> is truthy on the marker alone (no schema type has such a
  property, nor has a string, a tcomb type or \<^verbatim>\<open>Object.prototype\<close>). Reading a property of
  \<^verbatim>\<open>undefined\<close>, \<^verbatim>\<open>Object.entries(undefined)\<close> and calling \<^verbatim>\<open>map\<close> on something that is not
  an array throw; so does \<^verbatim>\<open>Object.entries\<close> followed by
  \<^verbatim>\<open>transform\<close> on an \<^verbatim>\<open>__args\<close> that is a declaration instead of a mapping (its first own
  property is \<^verbatim>\<open>meta\<close>, which has no \<^verbatim>\<open>meta\<close> of its own). The \<^verbatim>\<open>resolveType\<close> closure of a
  union and the \<^verbatim>\<open>_typeConfig\<close> slot that \<^verbatim>\<open>object\<close> overwrites are used when a query runs and
  have no part in the values here.
\<close>

function transform :: "entry obj \<Rightarrow> decl \<Rightarrow> bool \<Rightarrow> heap \<Rightarrow> sval res"
  and resolve :: "entry obj \<Rightarrow> decl \<Rightarrow> heap \<Rightarrow> sval res"
  and list :: "entry obj \<Rightarrow> decl \<Rightarrow> heap \<Rightarrow> sval res"
  and maybe :: "entry obj \<Rightarrow> decl \<Rightarrow> heap \<Rightarrow> sval res"
  and inter :: "entry obj \<Rightarrow> decl \<Rightarrow> heap \<Rightarrow> sval res"
  and struct :: "entry obj \<Rightarrow> decl \<Rightarrow> heap \<Rightarrow> sval res"
  and union_t :: "entry obj \<Rightarrow> decl \<Rightarrow> heap \<Rightarrow> sval res"
  and object :: "entry obj \<Rightarrow> decl \<Rightarrow> okind \<Rightarrow> heap \<Rightarrow> sval res"
  and object_field :: "entry obj \<Rightarrow> string \<times> decl \<Rightarrow> heap \<Rightarrow> (string \<times> field) res"
  and object_arg :: "entry obj \<Rightarrow> string \<times> decl \<Rightarrow> heap \<Rightarrow> (string \<times> argument) res"
where
  "transform tm type optional s =
     (case resolve tm type s of
        Inl e \<Rightarrow> Inl e
      | Inr (x, s1) \<Rightarrow>
          if optional then Inr (x, s1)
          else (case x of
                  Undefined \<Rightarrow> Inl TypeError
                | Marker t \<Rightarrow> Inr (t, s1)
                | _ \<Rightarrow> new_GraphQLNonNull x s1))"
| "resolve tm type s =
     (case lookup tm type of
        None \<Rightarrow> Inr (Undefined, s)
      | Some (Const c) \<Rightarrow> Inr (c, s)
      | Some (Fn B_enums) \<Rightarrow> enums type s
      | Some (Fn B_inter) \<Rightarrow> inter tm type s
      | Some (Fn B_list) \<Rightarrow> list tm type s
      | Some (Fn B_maybe) \<Rightarrow> maybe tm type s
      | Some (Fn B_struct) \<Rightarrow> struct tm type s
      | Some (Fn B_union) \<Rightarrow> union_t tm type s
      | Some (Inherited key) \<Rightarrow> inherited key type s)"
| "list tm type s =
     (case mtype (meta_of type) of
        None \<Rightarrow> Inl TypeError
      | Some el \<Rightarrow>
          (case transform tm el False s of
             Inl e \<Rightarrow> Inl e
           | Inr (x, s1) \<Rightarrow> new_GraphQLList x s1))"
| "maybe tm type s =
     (case mtype (meta_of type) of
        None \<Rightarrow> Inl TypeError
      | Some inner \<Rightarrow>
          (case transform tm inner True s of
             Inl e \<Rightarrow> Inl e
           | Inr (x, s1) \<Rightarrow> Inr (Marker x, s1)))"
| "inter tm type s = object tm type GraphQLInterfaceType s"
| "struct tm type s =
     object tm type
       (if truthy_prop (getp type ''__input'') then GraphQLInputObjectType else GraphQLObjectType) s"
| "union_t tm type s =
     (case mtypes (meta_of type) of
        None \<Rightarrow> Inl TypeError
      | Some ts \<Rightarrow>
          (case mapM (\<lambda>t. transform tm t True) ts s of
             Inl e \<Rightarrow> Inl e
           | Inr (types, s1) \<Rightarrow>
               (let (i, s2) = alloc s1
                in Inr (GraphQLUnionType i (getTypeName type)
                          (js_or (jsv_of (getp type ''__typeDesc'')) (jsv_of (getp type ''__desc'')))
                          types, s2))))"
| "object tm type GraphQLType s =
     (case get_gql s type of
        Some g \<Rightarrow> Inr (g, s)
      | None \<Rightarrow>
          (case (case getp type ''interfaces'' of
                   PDecls is \<Rightarrow>
                     (case mapM (\<lambda>i. transform tm i True) is s of
                        Inl e \<Rightarrow> Inl e
                      | Inr (xs, s1) \<Rightarrow> Inr (Some xs, s1))
                 | v \<Rightarrow> if truthy_prop v then Inl TypeError else Inr (None, s)) of
             Inl e \<Rightarrow> Inl e
           | Inr (interfaces, s1) \<Rightarrow>
               (case mprops (meta_of type) of
                  None \<Rightarrow> Inl TypeError
                | Some props \<Rightarrow>
                    (case mapM (object_field tm) props s1 of
                       Inl e \<Rightarrow> Inl e
                     | Inr (fs, s2) \<Rightarrow>
                         (let (i, s3) = alloc s2;
                              g = NewType i GraphQLType (getTypeName type)
                                    (js_or (jsv_of (getp type ''__typeDesc'')) (jsv_of (getp type ''__desc'')))
                                    interfaces
                                    (foldl (\<lambda>fields (prop, f). obj_set fields prop f) [] fs)
                          in Inr (g, set_gql type g s3))))))"
| "object_field tm (prop, propType) s =
     (case transform tm propType False s of
        Inl e \<Rightarrow> Inl e
      | Inr (x, s1) \<Rightarrow>
          (case (case getp propType ''__args'' of
                   PArgs as \<Rightarrow>
                     (case mapM (object_arg tm) as s1 of
                        Inl e \<Rightarrow> Inl e
                      | Inr (xs, s2) \<Rightarrow>
                          Inr (Some (foldl (\<lambda>args (k, a). obj_set args k a) [] xs), s2))
                 | v \<Rightarrow> if truthy_prop v then Inl TypeError else Inr (None, s1)) of
             Inl e \<Rightarrow> Inl e
           | Inr (args, s2) \<Rightarrow>
               Inr ((prop, FieldConfig x (jsv_of (getp propType ''__val''))
                                 (jsv_of (getp propType ''__desc'')) args), s2)))"
| "object_arg tm (k, v) s =
     (case transform tm v False s of
        Inl e \<Rightarrow> Inl e
      | Inr (x, s1) \<Rightarrow>
          Inr ((k, ArgConfig x (jsv_of (getp v ''__val'')) (jsv_of (getp v ''__desc''))), s1))"
  by pat_completeness auto

termination
  apply (relation "measure (\<lambda>x. case x of
      Inl a \<Rightarrow> (case a of
          Inl b \<Rightarrow> (case b of Inl (tm, d, opt, s) \<Rightarrow> 8 * size d + 5 | Inr (tm, d, s) \<Rightarrow> 8 * size d + 4)
        | Inr b \<Rightarrow> (case b of Inl (tm, d, s) \<Rightarrow> 8 * size d + 3
            | Inr c \<Rightarrow> (case c of Inl (tm, d, s) \<Rightarrow> 8 * size d + 3 | Inr (tm, d, s) \<Rightarrow> 8 * size d + 3)))
    | Inr a \<Rightarrow> (case a of
          Inl b \<Rightarrow> (case b of Inl (tm, d, s) \<Rightarrow> 8 * size d + 3 | Inr (tm, d, s) \<Rightarrow> 8 * size d + 3)
        | Inr b \<Rightarrow> (case b of Inl (tm, d, K, s) \<Rightarrow> 8 * size d + 2
            | Inr c \<Rightarrow> (case c of Inl (tm, kd, s) \<Rightarrow> 8 * size (snd kd) + 6
                               | Inr (tm, kd, s) \<Rightarrow> 8 * size (snd kd) + 6))))")
  apply (auto dest: size_mtype size_mtypes size_mprops size_getp_PDecls size_getp_PArgs)
  done

text \<open>The defining equations are unfolded by hand, one call at a time.\<close>

declare transform.simps [simp del] resolve.simps [simp del] list.simps [simp del]
  maybe.simps [simp del] inter.simps [simp del] struct.simps [simp del]
  union_t.simps [simp del] object.simps [simp del] object_field.simps [simp del]
  object_arg.simps [simp del]

section \<open>Declaration builders\<close>

text \<open>
  \<^verbatim>\<open>t.struct(props, name)\<close> of the tcomb library: a new struct type, at a new address, with
  no \<^verbatim>\<open>gql\<close> property yet (the cell of the new address is emptied).
\<close>

definition t_struct :: "decl obj \<Rightarrow> string \<Rightarrow> heap \<Rightarrow> decl \<times> heap" where
  "t_struct props nm s =
     (Tcomb (next_decl s) nm (Meta ''struct'' (Some nm) None None (Some props) None),
      s\<lparr>gql := filter (\<lambda>b. fst b \<noteq> next_decl s) (gql s), next_decl := Suc (next_decl s)\<rparr>)"

text \<open>
  The four exported builders. \<^verbatim>\<open>type\<close> and \<^verbatim>\<open>input\<close> make a struct and proxy it; \<^verbatim>\<open>fn\<close> and
  \<^verbatim>\<open>arg\<close> proxy the type they are given. \<^verbatim>\<open>Object.assign(p, props)\<close> stores every property
  of \<^verbatim>\<open>props\<close> on the handler, since each is among \<^verbatim>\<open>keys\<close>.
\<close>

definition type :: "string \<Rightarrow> jsv \<Rightarrow> decl obj \<Rightarrow> decl list \<Rightarrow> heap \<Rightarrow> decl \<times> heap" where
  "type nm typeDesc props interfaces s =
     (let (T, s1) = t_struct props nm s
      in (proxy T [(''__typeDesc'', PVal typeDesc), (''interfaces'', PDecls interfaces)], s1))"

definition input :: "string \<Rightarrow> jsv \<Rightarrow> decl obj \<Rightarrow> heap \<Rightarrow> decl \<times> heap" where
  "input nm typeDesc props s =
     (let (T, s1) = t_struct props nm s
      in (proxy T [(''__typeDesc'', PVal typeDesc), (''__input'', PVal (JBool True))], s1))"

text \<open>
  The \<^verbatim>\<open>args\<close> parameter of \<^verbatim>\<open>fn\<close> is a declaration or a plain mapping of argument
  declarations. \<^verbatim>\<open>args.meta && args.meta.props || args\<close>: a declaration always has a
  \<^verbatim>\<open>meta\<close>; on a plain mapping \<^verbatim>\<open>args.meta\<close> is the argument named \<^verbatim>\<open>meta\<close>, if there is one.
  The publish type is whatever the caller passes: a declaration, \<^verbatim>\<open>null\<close> or \<^verbatim>\<open>undefined\<close>.
\<close>

datatype fnargs = ArgsType decl | ArgsMap "decl obj"

definition fn :: "fnargs \<Rightarrow> decl \<Rightarrow> pval \<Rightarrow> jsv \<Rightarrow> decl" where
  "fn args OutputType publishType desc =
     proxy OutputType
       [(''__args'',
           (case args of
              ArgsType a \<Rightarrow>
                (case mprops (meta_of a) of Some ps \<Rightarrow> PArgs ps | None \<Rightarrow> PDecl a)
            | ArgsMap m \<Rightarrow>
                (case map_of m ''meta'' of
                   None \<Rightarrow> PArgs m
                 | Some x \<Rightarrow> if truthy_prop (getp x ''props'') then getp x ''props'' else PArgs m))),
        (''__publishType'', publishType),
        (''__desc'', PVal desc)]"

definition arg :: "decl \<Rightarrow> jsv \<Rightarrow> jsv \<Rightarrow> decl" where
  "arg Type val desc =
     proxy Type (if val = JNull then [(''__desc'', PVal desc)]
                 else [(''__val'', PVal val), (''__desc'', PVal desc)])"

section \<open>Nested tables\<close>

text \<open>
  The resolver and permission tables: nested mappings with functions or rules at the
  leaves.
\<close>

datatype 'a table = Leaf 'a | Table "(string \<times> 'a table) list"

text \<open>
  Modelled from the spec: \<^verbatim>\<open>deepExtend\<close> is the \<^verbatim>\<open>deep-extend\<close> package, which is not part
  of the sources. The spec asks for a recursive merge over nested key-value mappings in
  which a leaf of the later mapping overwrites what the earlier one has at the same path
  and untouched siblings are kept at every level. \<open>merge src val\<close> is the new value of
  one key, from the value \<open>src\<close> the target has there and the later value \<open>val\<close>.
\<close>

fun merge :: "'a table option \<Rightarrow> 'a table \<Rightarrow> 'a table" where
  "merge src (Leaf x) = Leaf x"
| "merge src (Table ob) =
     Table (foldl (\<lambda>target (key, val). put target key (merge (map_of target key) val))
                  (case src of Some (Table t) \<Rightarrow> t | _ \<Rightarrow> []) ob)"

definition deepExtend :: "'a table obj \<Rightarrow> 'a table obj \<Rightarrow> 'a table obj" where
  "deepExtend target ob =
     foldl (\<lambda>target (key, val). put target key (merge (map_of target key) val)) target ob"

section \<open>The schema builder\<close>

text \<open>
  The state of a \<^verbatim>\<open>TCombGraphQLSchema\<close>; \<open>None\<close> is \<^verbatim>\<open>null\<close>. \<open>'r\<close> is the type of resolver
  functions, \<open>'p\<close> that of permission rules.
\<close>

record ('r, 'p) tcomb_schema =
  mutations :: "decl obj option"
  queries :: "decl obj option"
  resolvers :: "'r table obj"
  subscriptions :: "pval obj option"
  shield :: "'p table obj option"

definition TCombGraphQLSchema :: "('r, 'p) tcomb_schema" where
  "TCombGraphQLSchema =
     \<lparr>mutations = None, queries = None, resolvers = [], subscriptions = None, shield = None\<rparr>"

definition or_empty :: "'a obj option \<Rightarrow> 'a obj" where
  "or_empty m = (case m of None \<Rightarrow> [] | Some x \<Rightarrow> x)"

text \<open>\<open>addMutation\<close> is one round of the loop of \<^verbatim>\<open>addMutations\<close>.\<close>

definition addMutation :: "('r, 'p) tcomb_schema \<Rightarrow> string \<times> decl \<Rightarrow> ('r, 'p) tcomb_schema" where
  "addMutation a kt =
     (let a1 = a\<lparr>mutations := Some (obj_set (or_empty (mutations a)) (fst kt) (snd kt))\<rparr>
      in if truthy_prop (getp (snd kt) ''__publishType'')
         then a1\<lparr>subscriptions :=
                   Some (obj_set (or_empty (subscriptions a1)) (fst kt) (getp (snd kt) ''__publishType''))\<rparr>
         else a1)"

definition addMutations :: "decl obj \<Rightarrow> ('r, 'p) tcomb_schema \<Rightarrow> ('r, 'p) tcomb_schema" where
  "addMutations ms a = foldl addMutation (a\<lparr>mutations := Some (or_empty (mutations a))\<rparr>) ms"

definition addQueries :: "decl obj \<Rightarrow> ('r, 'p) tcomb_schema \<Rightarrow> ('r, 'p) tcomb_schema" where
  "addQueries qs a =
     foldl (\<lambda>a (k, type). a\<lparr>queries := Some (obj_set (or_empty (queries a)) k type)\<rparr>)
           (a\<lparr>queries := Some (or_empty (queries a))\<rparr>) qs"

definition addResolvers :: "'r table obj \<Rightarrow> ('r, 'p) tcomb_schema \<Rightarrow> ('r, 'p) tcomb_schema" where
  "addResolvers rs a = a\<lparr>resolvers := deepExtend (resolvers a) rs\<rparr>"

definition addPermissions :: "'p table obj \<Rightarrow> ('r, 'p) tcomb_schema \<Rightarrow> ('r, 'p) tcomb_schema" where
  "addPermissions permissions a =
     a\<lparr>shield := (case shield a of Some sh \<Rightarrow> Some (deepExtend sh permissions)
                               | None \<Rightarrow> Some permissions)\<rparr>"

text \<open>
  The schema \<^verbatim>\<open>toGraphQL\<close> returns: the \<^verbatim>\<open>config\<close> given to \<^verbatim>\<open>new GraphQLSchema\<close> (an absent
  key is \<open>None\<close>), the resolvers \<^verbatim>\<open>addResolveFunctionsToSchema\<close> attaches, and the middleware
  \<^verbatim>\<open>applyMiddleware\<close> puts on it, \<^verbatim>\<open>shield(table, {fallback})\<close> being the pair of its
  arguments. Both library calls act on the schema they are given: \<^verbatim>\<open>toGraphQL\<close> ignores
  what they return.
\<close>

record ('r, 'p) schema =
  query :: "sval option"
  mutation :: "sval option"
  subscription :: "sval option"
  resolveFunctions :: "'r table obj"
  middleware :: "('p table obj \<times> string) option"

text \<open>
  \<^verbatim>\<open>t.struct\<close> takes a dictionary of types. The subscriptions hold what \<^verbatim>\<open>__publishType\<close>
  was; an entry that is not a declaration makes the build throw.
\<close>

fun types_of :: "pval obj \<Rightarrow> decl obj option" where
  "types_of [] = Some []"
| "types_of ((k, PDecl d) # r) = (case types_of r of None \<Rightarrow> None | Some ds \<Rightarrow> Some ((k, d) # ds))"
| "types_of ((k, v) # r) = None"

text \<open>\<open>root\<close> is one of the three \<^verbatim>\<open>if\<close> statements of \<^verbatim>\<open>toGraphQL\<close> that fill \<^verbatim>\<open>config\<close>.\<close>

definition root :: "entry obj \<Rightarrow> decl obj option \<Rightarrow> string \<Rightarrow> heap \<Rightarrow> (sval option) res" where
  "root tm m nm s =
     (case m of
        None \<Rightarrow> Inr (None, s)
      | Some props \<Rightarrow>
          (let (T, s1) = t_struct props nm s
           in case transform tm T True s1 of
                Inl e \<Rightarrow> Inl e
              | Inr (x, s2) \<Rightarrow> Inr (Some x, s2)))"

definition toGraphQL ::
  "entry obj \<Rightarrow> (('r, 'p) schema \<Rightarrow> ('r, 'p) schema) option \<Rightarrow> ('r, 'p) tcomb_schema \<Rightarrow> heap
     \<Rightarrow> (('r, 'p) schema) res" where
  "toGraphQL tm adapt a s =
     (case root tm (queries a) ''Query'' s of
        Inl e \<Rightarrow> Inl e
      | Inr (q, s1) \<Rightarrow>
     (case root tm (mutations a) ''Mutation'' s1 of
        Inl e \<Rightarrow> Inl e
      | Inr (m, s2) \<Rightarrow>
     (case (case subscriptions a of
              None \<Rightarrow> Inr (None, s2)
            | Some ps \<Rightarrow>
                (case types_of ps of
                   None \<Rightarrow> Inl TypeError
                 | Some ds \<Rightarrow> root tm (Some ds) ''Subscription'' s2)) of
        Inl e \<Rightarrow> Inl e
      | Inr (sub, s3) \<Rightarrow>
          (let schema0 = \<lparr>query = q, mutation = m, subscription = sub,
                          resolveFunctions = [], middleware = None\<rparr>;
               schema1 = schema0\<lparr>resolveFunctions := resolvers a\<rparr>;
               schema2 = (case shield a of
                            Some sh \<Rightarrow> schema1\<lparr>middleware := Some (sh, ''Permission denied'')\<rparr>
                          | None \<Rightarrow> schema1);
               schema3 = (case adapt of Some f \<Rightarrow> f schema2 | None \<Rightarrow> schema2)
           in Inr (schema3, s3)))))"

section \<open>Example declarations\<close>

text \<open>
  Some types of the tcomb library, and its \<^verbatim>\<open>maybe\<close>, \<^verbatim>\<open>list\<close> and \<^verbatim>\<open>union\<close> combinators with
  the address of the new type as first argument; \<open>Foo\<close> is a type nobody registered.
\<close>

definition t_String :: decl where
  "t_String = Tcomb 0 ''String'' (Meta ''irreducible'' (Some ''String'') None None None None)"

definition t_Number :: decl where
  "t_Number = Tcomb 1 ''Number'' (Meta ''irreducible'' (Some ''Number'') None None None None)"

definition t_Integer :: decl where
  "t_Integer = Tcomb 2 ''Integer'' (Meta ''subtype'' (Some ''Integer'') (Some t_Number) None None None)"

definition t_Boolean :: decl where
  "t_Boolean = Tcomb 3 ''Boolean'' (Meta ''irreducible'' (Some ''Boolean'') None None None None)"

definition t_ID :: decl where
  "t_ID = Tcomb 4 ''ID'' (Meta ''union'' (Some ''ID'') None (Some [t_String, t_Integer]) None None)"

definition Foo :: decl where
  "Foo = Tcomb 5 ''Foo'' (Meta ''irreducible'' (Some ''Foo'') None None None None)"

definition t_maybe :: "nat \<Rightarrow> decl \<Rightarrow> decl" where
  "t_maybe i d = Tcomb i (''?'' @ getTypeName d) (Meta ''maybe'' None (Some d) None None None)"

definition t_list :: "nat \<Rightarrow> decl \<Rightarrow> decl" where
  "t_list i d =
     Tcomb i (''Array<'' @ getTypeName d @ ''>'') (Meta ''list'' None (Some d) None None None)"

definition t_union :: "nat \<Rightarrow> decl list \<Rightarrow> string \<Rightarrow> decl" where
  "t_union i ds nm = Tcomb i nm (Meta ''union'' (Some nm) None (Some ds) None None)"

definition heap0 :: heap where
  "heap0 = \<lparr>gql = [], next_gql = 0, next_decl = 100\<rparr>"

lemmas example_defs =
  t_String_def t_Number_def t_Integer_def t_Boolean_def t_ID_def Foo_def t_maybe_def
  t_list_def t_union_def heap0_def typeMap_def lookup_def typeMap_get_def Object_prototype_def
  name_key_def alloc_def new_GraphQLList_def new_GraphQLNonNull_def

section \<open>The optionality policy\<close>

lemma transform_optional: "transform tm d True s = resolve tm d s"
  by (simp add: transform.simps split: sum.splits)

lemma transform_marker:
  "resolve tm d s = Inr (Marker t, s1) \<Longrightarrow> transform tm d False s = Inr (t, s1)"
  by (simp add: transform.simps)


lemma transform_plain:
  "resolve tm d s = Inr (x, s1) \<Longrightarrow> nullable_type x \<Longrightarrow>
   transform tm d False s =
     Inr (GraphQLNonNull (next_gql s1) x, s1\<lparr>next_gql := Suc (next_gql s1)\<rparr>)"
  by (cases x) (simp_all add: transform.simps new_GraphQLNonNull_def alloc_def)


lemma resolve_maybe:
  "lookup tm d = Some (Fn B_maybe) \<Longrightarrow> mtype (meta_of d) = Some inner \<Longrightarrow>
   resolve tm d s =
     (case transform tm inner True s of Inl e \<Rightarrow> Inl e | Inr (x, s1) \<Rightarrow> Inr (Marker x, s1))"
  by (simp add: resolve.simps maybe.simps)

lemma resolve_list:
  "lookup tm d = Some (Fn B_list) \<Longrightarrow> mtype (meta_of d) = Some el \<Longrightarrow>
   resolve tm d s =
     (case transform tm el False s of
        Inl e \<Rightarrow> Inl e
      | Inr (x, s1) \<Rightarrow>
          if is_type x
          then Inr (GraphQLList (next_gql s1) x, s1\<lparr>next_gql := Suc (next_gql s1)\<rparr>)
          else Inl Error)"
  by (simp add: resolve.simps list.simps new_GraphQLList_def alloc_def split: sum.splits)







section \<open>Lists\<close>

text \<open>
  C7. The list builder wraps \<^verbatim>\<open>transform\<close> of the element declaration, called with
  optional = false, in a new list type (which \<^verbatim>\<open>GraphQLList\<close> makes of a schema type only).
  So where a list declaration stands as a field or argument (optional = false): an
  element that resolves to a plain type is wrapped non-null inside a non-null list; an
  element that is wrapped maybe (it resolves to the marker) goes into the list bare,
  when what the marker carries is a schema type, and the list is still non-null; and when
  the list declaration itself is wrapped maybe the list comes out bare as well. When the
  marker carries no schema type (the inner declaration has no mapping), building the
  list throws.
\<close>

theorem list_elements_and_container:
  assumes "lookup tm L = Some (Fn B_list)" and "mtype (meta_of L) = Some el"
  shows "list tm L s =
           (case transform tm el False s of
              Inl e \<Rightarrow> Inl e
            | Inr (x, s1) \<Rightarrow>
                if is_type x
                then Inr (GraphQLList (next_gql s1) x, s1\<lparr>next_gql := Suc (next_gql s1)\<rparr>)
                else Inl Error) \<and>
         (resolve tm el s = Inr (x, s1) \<and> nullable_type x \<longrightarrow>
           transform tm L False s =
             Inr (GraphQLNonNull (next_gql s1 + 2)
                    (GraphQLList (next_gql s1 + 1) (GraphQLNonNull (next_gql s1) x)),
                  s1\<lparr>next_gql := next_gql s1 + 3\<rparr>)) \<and>
         (resolve tm el s = Inr (Marker t, s1) \<and> is_type t \<longrightarrow>
           transform tm L False s =
             Inr (GraphQLNonNull (next_gql s1 + 1) (GraphQLList (next_gql s1) t),
                  s1\<lparr>next_gql := next_gql s1 + 2\<rparr>)) \<and>
         (resolve tm el s = Inr (Marker t, s1) \<and> is_type t \<and>
          lookup tm M = Some (Fn B_maybe) \<and> mtype (meta_of M) = Some L \<longrightarrow>
           transform tm M False s =
             Inr (GraphQLList (next_gql s1) t, s1\<lparr>next_gql := Suc (next_gql s1)\<rparr>)) \<and>
         (resolve tm el s = Inr (Marker t, s1) \<and> \<not> is_type t \<longrightarrow>
           transform tm L False s = Inl Error \<and> transform tm L True s = Inl Error)"
proof (intro conjI impI)
  show "list tm L s =
           (case transform tm el False s of
              Inl e \<Rightarrow> Inl e
            | Inr (x, s1) \<Rightarrow>
                if is_type x
                then Inr (GraphQLList (next_gql s1) x, s1\<lparr>next_gql := Suc (next_gql s1)\<rparr>)
                else Inl Error)"
    using assms by (simp add: list.simps new_GraphQLList_def alloc_def split: sum.splits)
next
  assume a: "resolve tm el s = Inr (x, s1) \<and> nullable_type x"
  then have "transform tm el False s =
      Inr (GraphQLNonNull (next_gql s1) x, s1\<lparr>next_gql := Suc (next_gql s1)\<rparr>)"
    by (simp add: transform_plain)
  then have "resolve tm L s =
      Inr (GraphQLList (Suc (next_gql s1)) (GraphQLNonNull (next_gql s1) x),
           s1\<lparr>next_gql := Suc (Suc (next_gql s1))\<rparr>)"
    using assms by (simp add: resolve_list)
  from transform_plain [OF this]
  show "transform tm L False s =
             Inr (GraphQLNonNull (next_gql s1 + 2)
                    (GraphQLList (next_gql s1 + 1) (GraphQLNonNull (next_gql s1) x)),
                  s1\<lparr>next_gql := next_gql s1 + 3\<rparr>)"
    by (simp add: numeral_3_eq_3)
next
  assume a: "resolve tm el s = Inr (Marker t, s1) \<and> is_type t"
  then have "resolve tm L s =
      Inr (GraphQLList (next_gql s1) t, s1\<lparr>next_gql := Suc (next_gql s1)\<rparr>)"
    using assms by (simp add: resolve_list transform_marker)
  from transform_plain [OF this]
  show "transform tm L False s =
             Inr (GraphQLNonNull (next_gql s1 + 1) (GraphQLList (next_gql s1) t),
                  s1\<lparr>next_gql := next_gql s1 + 2\<rparr>)"
    by simp
next
  assume a: "resolve tm el s = Inr (Marker t, s1) \<and> is_type t \<and>
          lookup tm M = Some (Fn B_maybe) \<and> mtype (meta_of M) = Some L"
  then have "resolve tm L s =
      Inr (GraphQLList (next_gql s1) t, s1\<lparr>next_gql := Suc (next_gql s1)\<rparr>)"
    using assms by (simp add: resolve_list transform_marker)
  with a have "resolve tm M s =
      Inr (Marker (GraphQLList (next_gql s1) t), s1\<lparr>next_gql := Suc (next_gql s1)\<rparr>)"
    by (simp add: resolve_maybe transform_optional)
  then show "transform tm M False s =
             Inr (GraphQLList (next_gql s1) t, s1\<lparr>next_gql := Suc (next_gql s1)\<rparr>)"
    by (rule transform_marker)
next
  assume a: "resolve tm el s = Inr (Marker t, s1) \<and> \<not> is_type t"
  then have r: "resolve tm L s = Inl Error"
    using assms by (simp add: resolve_list transform_marker)
  then show "transform tm L False s = Inl Error"
    by (simp add: transform.simps)
  from r show "transform tm L True s = Inl Error"
    by (simp add: transform_optional)
qed

theorem list_elements_and_container_witness:
  "transform typeMap (t_list 11 t_String) False heap0 =
     Inr (GraphQLNonNull 2 (GraphQLList 1 (GraphQLNonNull 0 (Scalar ''String''))),
          heap0\<lparr>next_gql := 3\<rparr>) \<and>
   transform typeMap (t_list 11 (t_maybe 10 t_String)) False heap0 =
     Inr (GraphQLNonNull 1 (GraphQLList 0 (Scalar ''String'')), heap0\<lparr>next_gql := 2\<rparr>) \<and>
   transform typeMap (t_maybe 12 (t_list 11 (t_maybe 10 t_String))) False heap0 =
     Inr (GraphQLList 0 (Scalar ''String''), heap0\<lparr>next_gql := 1\<rparr>) \<and>
   transform typeMap (t_list 11 (t_maybe 10 Foo)) False heap0 = Inl Error"
proof -
  have l1: "lookup typeMap (t_list 11 t_String) = Some (Fn B_list)"
    and e1: "mtype (meta_of (t_list 11 t_String)) = Some t_String"
    and l2: "lookup typeMap (t_list 11 (t_maybe 10 t_String)) = Some (Fn B_list)"
    and e2: "mtype (meta_of (t_list 11 (t_maybe 10 t_String))) = Some (t_maybe 10 t_String)"
    and l3: "lookup typeMap (t_list 11 (t_maybe 10 Foo)) = Some (Fn B_list)"
    and e3: "mtype (meta_of (t_list 11 (t_maybe 10 Foo))) = Some (t_maybe 10 Foo)"
    by (simp_all add: example_defs)
  have m: "resolve typeMap (t_maybe 10 t_String) heap0 = Inr (Marker (Scalar ''String''), heap0)"
    by (simp add: resolve.simps maybe.simps transform.simps example_defs)
  have f: "resolve typeMap (t_maybe 10 Foo) heap0 = Inr (Marker Undefined, heap0)"
    by (simp add: resolve.simps maybe.simps transform.simps example_defs)
  have p: "resolve typeMap t_String heap0 = Inr (Scalar ''String'', heap0)"
    by (simp add: resolve.simps example_defs)
  have o: "lookup typeMap (t_maybe 12 (t_list 11 (t_maybe 10 t_String))) = Some (Fn B_maybe) \<and>
      mtype (meta_of (t_maybe 12 (t_list 11 (t_maybe 10 t_String)))) =
        Some (t_list 11 (t_maybe 10 t_String))"
    by (simp add: example_defs)
  show ?thesis
    using list_elements_and_container
        [OF l1 e1, where s = heap0 and x = "Scalar ''String''" and ?s1.0 = heap0]
      list_elements_and_container
        [OF l2 e2, where s = heap0 and t = "Scalar ''String''" and ?s1.0 = heap0
           and M = "t_maybe 12 (t_list 11 (t_maybe 10 t_String))"]
      list_elements_and_container
        [OF l3 e3, where s = heap0 and t = Undefined and ?s1.0 = heap0] m f p o
    by (simp add: heap0_def)
qed

section \<open>Declarations without a mapping\<close>

text \<open>
  C8, as the code has it. When neither the name nor the kind of a declaration has an
  entry in the type map, of its own or inherited from \<^verbatim>\<open>Object.prototype\<close>, \<^verbatim>\<open>transform\<close>
  throws a \<^verbatim>\<open>TypeError\<close> if optional is false; if optional is true it throws nothing and
  returns \<^verbatim>\<open>undefined\<close>, the heap unchanged.
\<close>

theorem unknown_mapping:
  assumes "typeMap_get tm (name_key (name (meta_of d))) = None"
      and "typeMap_get tm (kind (meta_of d)) = None"
  shows "transform tm d False s = Inl TypeError \<and> transform tm d True s = Inr (Undefined, s)"
  using assms by (simp add: transform.simps resolve.simps lookup_def)

theorem unknown_mapping_witness:
  "transform typeMap Foo False heap0 = Inl TypeError \<and>
   transform typeMap Foo True heap0 = Inr (Undefined, heap0)"
  using unknown_mapping [of typeMap Foo heap0] by (simp add: example_defs)

text \<open>
  The claim as stated fails at optional = true: \<open>Foo\<close> has no entry under its name or
  its kind, and \<^verbatim>\<open>transform\<close> returns.
\<close>

theorem unknown_mapping_counterexample:
  "typeMap_get typeMap (name_key (name (meta_of Foo))) = None \<and>
   typeMap_get typeMap (kind (meta_of Foo)) = None \<and>
   transform typeMap Foo True heap0 = Inr (Undefined, heap0)"
  by (simp add: transform.simps resolve.simps example_defs)

text \<open>
  A name that the type map inherits is an entry: a declaration named \<^verbatim>\<open>valueOf\<close> makes
  \<^verbatim>\<open>transform\<close> throw whatever the flag, one named \<^verbatim>\<open>toString\<close> or \<^verbatim>\<open>constructor\<close> comes back
  as a string or as itself when optional is true.
\<close>

lemma inherited_names:
  "transform typeMap (Tcomb 6 ''valueOf'' (Meta ''irreducible'' (Some ''valueOf'') None None None None))
     True heap0 = Inl TypeError"
  "transform typeMap (Tcomb 6 ''toString'' (Meta ''irreducible'' (Some ''toString'') None None None None))
     True heap0 = Inr (NotAType (JSString ''[object Undefined]''), heap0)"
  "transform typeMap (Tcomb 6 ''toString'' (Meta ''irreducible'' (Some ''toString'') None None None None))
     False heap0 = Inl Error"
  "transform typeMap
     (Tcomb 6 ''constructor'' (Meta ''irreducible'' (Some ''constructor'') None None None None))
     True heap0 =
   Inr (NotAType (TcombType
          (Tcomb 6 ''constructor'' (Meta ''irreducible'' (Some ''constructor'') None None None None))),
        heap0)"
  by (simp_all add: transform.simps resolve.simps inherited_def example_defs)

section \<open>One schema type per declaration\<close>

lemma get_gql_set_gql: "ident_of d' = ident_of d \<Longrightarrow> get_gql (set_gql d g s) d' = Some g"
  by (simp add: get_gql_def set_gql_def)

lemma get_gql_ident: "ident_of d' = ident_of d \<Longrightarrow> get_gql s d' = get_gql s d"
  by (simp add: get_gql_def)

text \<open>\<open>keeps s s'\<close>: every \<^verbatim>\<open>gql\<close> property that is set in \<open>s\<close> is the same in \<open>s'\<close>.\<close>

definition keeps :: "heap \<Rightarrow> heap \<Rightarrow> bool" where
  "keeps s s' = (\<forall>i g. map_of (gql s) i = Some g \<longrightarrow> map_of (gql s') i = Some g)"

lemma keeps_refl: "keeps s s"
  by (simp add: keeps_def)

lemma keeps_trans: "keeps s s' \<Longrightarrow> keeps s' s'' \<Longrightarrow> keeps s s''"
  by (simp add: keeps_def)

lemma keeps_gql: "gql s' = gql s \<Longrightarrow> keeps s s'"
  by (simp add: keeps_def)

lemma keeps_get_gql: "keeps s s' \<Longrightarrow> get_gql s d = Some g \<Longrightarrow> get_gql s' d = Some g"
  by (simp add: keeps_def get_gql_def)

lemma keeps_new:
  assumes "keeps s s2" and "get_gql s d = None" and "gql s3 = gql s2"
  shows "keeps s (set_gql d g s3)"
  using assms by (auto simp: keeps_def get_gql_def set_gql_def)

lemma new_GraphQLList_keeps: "new_GraphQLList x s = Inr (v, s') \<Longrightarrow> keeps s s'"
  by (auto simp: new_GraphQLList_def alloc_def keeps_def split: if_splits)

lemma new_GraphQLNonNull_keeps: "new_GraphQLNonNull x s = Inr (v, s') \<Longrightarrow> keeps s s'"
  by (auto simp: new_GraphQLNonNull_def alloc_def keeps_def split: if_splits)

lemma enums_keeps: "enums d s = Inr (v, s') \<Longrightarrow> keeps s s'"
  by (auto simp: enums_def Let_def alloc_def intro!: keeps_new keeps_refl
      split: option.splits)

lemma inherited_keeps: "inherited k d s = Inr (v, s') \<Longrightarrow> keeps s s'"
  by (auto simp: inherited_def keeps_refl split: if_splits)

lemma mapM_keeps:
  "(\<forall>x\<in>set xs. \<forall>u v u'. f x u = Inr (v, u') \<longrightarrow> keeps u u') \<Longrightarrow>
   mapM f xs s = Inr (ys, s') \<Longrightarrow> keeps s s'"
proof (induction xs arbitrary: s ys)
  case Nil
  then show ?case by (simp add: keeps_refl)
next
  case (Cons x xs)
  from Cons.prems(2) obtain y u zs where x: "f x s = Inr (y, u)"
    and rest: "mapM f xs u = Inr (zs, s')"
    by (auto split: sum.splits)
  from Cons.prems(1) x have "keeps s u" by simp
  moreover from Cons.prems(1) have "\<forall>x\<in>set xs. \<forall>u v u'. f x u = Inr (v, u') \<longrightarrow> keeps u u'"
    by simp
  from Cons.IH [OF this rest] have "keeps u s'" .
  ultimately show ?case by (rule keeps_trans)
qed

lemma transform_result:
  assumes "transform tm d opt s = Inr (v, s')"
  obtains x s1 where "resolve tm d s = Inr (x, s1)"
    and "opt \<and> s' = s1 \<or> (\<exists>t. x = Marker t) \<and> s' = s1 \<or> new_GraphQLNonNull x s1 = Inr (v, s')"
proof -
  from assms obtain x s1 where r: "resolve tm d s = Inr (x, s1)"
    by (auto simp: transform.simps split: sum.splits)
  with assms have "opt \<and> s' = s1 \<or> (\<exists>t. x = Marker t) \<and> s' = s1 \<or>
      new_GraphQLNonNull x s1 = Inr (v, s')"
    by (cases x) (auto simp: transform.simps split: if_splits)
  with r show ?thesis by (rule that)
qed

lemma object_steps:
  assumes "object tm d K s = Inr (g, s')" and "get_gql s d = None"
  obtains s1 props fs s2 s3 where
    "(\<exists>is ifs. getp d ''interfaces'' = PDecls is \<and>
           mapM (\<lambda>i. transform tm i True) is s = Inr (ifs, s1)) \<or> s1 = s"
    and "mprops (meta_of d) = Some props"
    and "mapM (object_field tm) props s1 = Inr (fs, s2)"
    and "gql s3 = gql s2" and "s' = set_gql d g s3"
proof -
  from assms obtain b s1 where
    i: "(case getp d ''interfaces'' of
           PDecls is \<Rightarrow>
             (case mapM (\<lambda>i. transform tm i True) is s of
                Inl e \<Rightarrow> Inl e
              | Inr (xs, s1) \<Rightarrow> Inr (Some xs, s1))
         | v \<Rightarrow> if truthy_prop v then Inl TypeError else Inr (None, s)) = Inr (b, s1)"
    by (simp add: object.simps split: sum.splits) auto
  then have 1: "(\<exists>is ifs. getp d ''interfaces'' = PDecls is \<and>
           mapM (\<lambda>i. transform tm i True) is s = Inr (ifs, s1)) \<or> s1 = s"
    by (auto split: pval.splits sum.splits if_splits)
  from assms i obtain props where p: "mprops (meta_of d) = Some props"
    by (simp add: object.simps split: option.splits)
  from assms i p obtain fs s2 where f: "mapM (object_field tm) props s1 = Inr (fs, s2)"
    by (simp add: object.simps split: sum.splits) auto
  from assms i p f have s': "s' = set_gql d g (s2\<lparr>next_gql := Suc (next_gql s2)\<rparr>)"
    by (auto simp: object.simps Let_def alloc_def)
  have g: "gql (s2\<lparr>next_gql := Suc (next_gql s2)\<rparr>) = gql s2"
    by simp
  show ?thesis
    by (rule that [OF 1 p f g s'])
qed

text \<open>No call changes a \<^verbatim>\<open>gql\<close> property that is set.\<close>

lemma keeps_all:
  "\<forall>v s'. transform tm d opt s = Inr (v, s') \<longrightarrow> keeps s s'"
  "\<forall>v s'. resolve tm d s = Inr (v, s') \<longrightarrow> keeps s s'"
  "\<forall>v s'. list tm d s = Inr (v, s') \<longrightarrow> keeps s s'"
  "\<forall>v s'. maybe tm d s = Inr (v, s') \<longrightarrow> keeps s s'"
  "\<forall>v s'. inter tm d s = Inr (v, s') \<longrightarrow> keeps s s'"
  "\<forall>v s'. struct tm d s = Inr (v, s') \<longrightarrow> keeps s s'"
  "\<forall>v s'. union_t tm d s = Inr (v, s') \<longrightarrow> keeps s s'"
  "\<forall>v s'. object tm d K s = Inr (v, s') \<longrightarrow> keeps s s'"
  "\<forall>f s'. object_field tm kp s = Inr (f, s') \<longrightarrow> keeps s s'"
  "\<forall>a s'. object_arg tm kv s = Inr (a, s') \<longrightarrow> keeps s s'"
proof (induction tm d opt s and tm d s and tm d s and tm d s and tm d s and tm d s and tm d s
    and tm d K s and tm kp s and tm kv s
    rule: transform_resolve_list_maybe_inter_struct_union_t_object_object_field_object_arg.induct)
  case (1 tm type optional s)
  show ?case
  proof (intro allI impI)
    fix v s' assume "transform tm type optional s = Inr (v, s')"
    then obtain x s1 where r: "resolve tm type s = Inr (x, s1)"
      and c: "optional \<and> s' = s1 \<or> (\<exists>t. x = Marker t) \<and> s' = s1 \<or>
              new_GraphQLNonNull x s1 = Inr (v, s')"
      by (rule transform_result)
    from 1 r have "keeps s s1" by simp
    with c show "keeps s s'"
      by (auto dest: new_GraphQLNonNull_keeps intro: keeps_trans)
  qed
next
  case (2 tm type s)
  show ?case
  proof (intro allI impI)
    fix v s' assume a: "resolve tm type s = Inr (v, s')"
    show "keeps s s'"
    proof (cases "lookup tm type")
      case None
      with a show ?thesis by (simp add: resolve.simps keeps_refl)
    next
      case (Some e)
      show ?thesis
      proof (cases e)
        case (Const c)
        with a Some show ?thesis by (simp add: resolve.simps keeps_refl)
      next
        case (Fn b)
        with a Some 2 show ?thesis
          by (cases b) (simp_all add: resolve.simps enums_keeps)
      next
        case (Inherited k)
        with a Some show ?thesis by (simp add: resolve.simps inherited_keeps)
      qed
    qed
  qed
next
  case (3 tm type s)
  then show ?case
    by (auto simp: list.simps split: option.splits sum.splits
        dest!: new_GraphQLList_keeps intro: keeps_trans)
next
  case (4 tm type s)
  then show ?case
    by (auto simp: maybe.simps split: option.splits sum.splits)
next
  case (5 tm type s)
  then show ?case by (simp add: inter.simps)
next
  case (6 tm type s)
  then show ?case by (simp add: struct.simps)
next
  case (7 tm type s)
  show ?case
  proof (intro allI impI)
    fix v s' assume a: "union_t tm type s = Inr (v, s')"
    then obtain ts xs s1 where ts: "mtypes (meta_of type) = Some ts"
      and m: "mapM (\<lambda>t. transform tm t True) ts s = Inr (xs, s1)" and g: "gql s' = gql s1"
      by (auto simp: union_t.simps Let_def alloc_def split: option.splits sum.splits)
    from 7 [OF ts] have "\<forall>x\<in>set ts. \<forall>u v u'. transform tm x True u = Inr (v, u') \<longrightarrow> keeps u u'"
      by simp
    then have "keeps s s1"
      by (rule mapM_keeps [OF _ m])
    moreover from g have "keeps s1 s'" by (rule keeps_gql)
    ultimately show "keeps s s'" by (rule keeps_trans)
  qed
next
  case (8 tm type GraphQLType s)
  show ?case
  proof (intro allI impI)
    fix v s' assume a: "object tm type GraphQLType s = Inr (v, s')"
    show "keeps s s'"
    proof (cases "get_gql s type")
      case (Some g)
      with a show ?thesis by (simp add: object.simps keeps_refl)
    next
      case None
      from a None obtain s1 props fs s2 s3 where
        i: "(\<exists>is ifs. getp type ''interfaces'' = PDecls is \<and>
              mapM (\<lambda>i. transform tm i True) is s = Inr (ifs, s1)) \<or> s1 = s"
        and p: "mprops (meta_of type) = Some props"
        and f: "mapM (object_field tm) props s1 = Inr (fs, s2)"
        and g: "gql s3 = gql s2" and s': "s' = set_gql type v s3"
        by (rule object_steps)
      from i have "keeps s s1"
      proof
        assume "\<exists>is ifs. getp type ''interfaces'' = PDecls is \<and>
              mapM (\<lambda>i. transform tm i True) is s = Inr (ifs, s1)"
        then obtain "is" ifs where is1: "getp type ''interfaces'' = PDecls is"
          and m: "mapM (\<lambda>i. transform tm i True) is s = Inr (ifs, s1)"
          by blast
        from "8.IH"(1) [OF None is1]
        have "\<forall>x\<in>set is. \<forall>u v u'. transform tm x True u = Inr (v, u') \<longrightarrow> keeps u u'"
          by simp
        then show "keeps s s1"
          by (rule mapM_keeps [OF _ m])
      next
        assume "s1 = s"
        then show "keeps s s1" by (simp add: keeps_refl)
      qed
      moreover have "keeps s1 s2"
      proof (rule mapM_keeps [OF _ f], intro ballI)
        fix xa assume xa: "xa \<in> set props"
        from a None obtain b where
          "(case getp type ''interfaces'' of
              PDecls is \<Rightarrow>
                (case mapM (\<lambda>i. transform tm i True) is s of
                   Inl e \<Rightarrow> Inl e
                 | Inr (xs, s1) \<Rightarrow> Inr (Some xs, s1))
            | v \<Rightarrow> if truthy_prop v then Inl TypeError else Inr (None, s)) = Inr b"
          by (auto simp: object.simps split: sum.splits)
        from "8.IH"(2) [OF None this _ p xa, of "fst b" "snd b"]
        show "\<forall>u v u'. object_field tm xa u = Inr (v, u') \<longrightarrow> keeps u u'"
          by simp
      qed
      ultimately have "keeps s s2" by (rule keeps_trans)
      from keeps_new [OF this None g] s' show ?thesis by simp
    qed
  qed
next
  case (9 tm pr propType s)
  show ?case
  proof (intro allI impI)
    fix f s' assume a: "object_field tm (pr, propType) s = Inr (f, s')"
    then obtain x s1 where t: "transform tm propType False s = Inr (x, s1)"
      by (auto simp: object_field.simps split: sum.splits)
    with "9.IH"(1) have k1: "keeps s s1" by simp
    from a t have "(\<exists>as xs. getp propType ''__args'' = PArgs as \<and>
          mapM (object_arg tm) as s1 = Inr (xs, s')) \<or> s' = s1"
      by (auto simp: object_field.simps split: sum.splits pval.splits if_splits)
    then have "keeps s1 s'"
    proof
      assume "\<exists>as xs. getp propType ''__args'' = PArgs as \<and>
          mapM (object_arg tm) as s1 = Inr (xs, s')"
      then obtain as xs where as: "getp propType ''__args'' = PArgs as"
        and m: "mapM (object_arg tm) as s1 = Inr (xs, s')"
        by blast
      from "9.IH"(2) [OF t _ as, of x s1]
      have "\<forall>x\<in>set as. \<forall>u v u'. object_arg tm x u = Inr (v, u') \<longrightarrow> keeps u u'"
        by simp
      then show "keeps s1 s'"
        by (rule mapM_keeps [OF _ m])
    next
      assume "s' = s1"
      then show "keeps s1 s'" by (simp add: keeps_refl)
    qed
    with k1 show "keeps s s'" by (rule keeps_trans)
  qed
next
  case (10 tm k v s)
  then show ?case
    by (auto simp: object_arg.simps split: sum.splits)
qed


lemma object_cached: "get_gql s d = Some g \<Longrightarrow> object tm d K s = Inr (g, s)"
  by (simp add: object.simps)

lemma object_built:
  assumes "object tm d K s = Inr (g, s1)" and "get_gql s d = None"
  shows "\<exists>i desc ifs fs s3. g = NewType i K (getTypeName d) desc ifs fs \<and> s1 = set_gql d g s3"
  using assms
  by (simp add: object.simps Let_def alloc_def split: sum.splits option.splits prod.splits) blast

lemma object_result: "object tm d K s = Inr (g, s1) \<Longrightarrow> get_gql s1 d = Some g"
proof (cases "get_gql s d")
  case None
  assume "object tm d K s = Inr (g, s1)"
  from object_built [OF this None] show ?thesis
    by (auto simp: get_gql_set_gql)
next
  case (Some g')
  assume "object tm d K s = Inr (g, s1)"
  with Some show ?thesis by (simp add: object.simps)
qed

text \<open>The declarations that the type map sends to the struct or the interface builder.\<close>

definition is_object_decl :: "entry obj \<Rightarrow> decl \<Rightarrow> bool" where
  "is_object_decl tm d = (lookup tm d = Some (Fn B_struct) \<or> lookup tm d = Some (Fn B_inter))"

lemma resolve_object:
  assumes "is_object_decl tm d"
  shows "\<exists>K. resolve tm d s = object tm d K s"
  using assms unfolding is_object_decl_def
  by (auto simp: resolve.simps struct.simps inter.simps)

lemma resolve_result:
  assumes "is_object_decl tm d" and "resolve tm d s = Inr (g, s1)"
  shows "get_gql s1 d = Some g"
proof -
  from resolve_object [OF assms(1), of s] assms(2) obtain K where "object tm d K s = Inr (g, s1)"
    by auto
  then show ?thesis by (rule object_result)
qed

lemma resolve_cached:
  assumes "is_object_decl tm d'" and "ident_of d' = ident_of d" and "get_gql s d = Some g"
  shows "resolve tm d' s = Inr (g, s)"
proof -
  from assms(3) have "get_gql s d' = Some g" by (simp add: get_gql_ident [OF assms(2)])
  then have "object tm d' K s = Inr (g, s)" for K by (rule object_cached)
  with resolve_object [OF assms(1), of s] show ?thesis by auto
qed

lemma proxy_same_type:
  "ident_of (proxy d props) = ident_of d" "lookup tm (proxy d props) = lookup tm d"
  "is_object_decl tm (proxy d props) = is_object_decl tm d"
  by (simp_all add: proxy_def lookup_def is_object_decl_def)

lemma resolve_built:
  assumes "is_object_decl tm d" and "resolve tm d s = Inr (g, s1)" and "get_gql s d = None"
  shows "nullable_type g"
proof -
  from resolve_object [OF assms(1), of s] assms(2) obtain K where "object tm d K s = Inr (g, s1)"
    by auto
  from object_built [OF this assms(3)] show ?thesis by auto
qed

lemma transforms_keep:
  assumes "mapM (\<lambda>site. transform tm (fst site) (snd site)) sites s = Inr (vs, s')"
  shows "keeps s s'"
proof -
  have "\<forall>x\<in>set sites. \<forall>u v u'. transform tm (fst x) (snd x) u = Inr (v, u') \<longrightarrow> keeps u u'"
    using keeps_all(1) by blast
  from mapM_keeps [OF this assms] show ?thesis .
qed

text \<open>
  C2. Let \<open>d\<close> be a declaration that resolves to the struct or the interface builder,
  and \<open>d'\<close> a declaration over the same tcomb type: \<open>d\<close> itself, a proxy of \<open>d\<close>, or the
  type \<open>d\<close> is a proxy of (a proxy of \<open>d\<close> has the identity of \<open>d\<close> and resolves as \<open>d\<close>
  does). Let \<open>d\<close> be transformed, which leaves the heap \<open>s1\<close>, and then any other
  declarations \<open>sites\<close>, with any flags, which leaves \<open>s2\<close>. Transforming \<open>d'\<close> then with
  optional = true returns the very object that \<open>d\<close> got and leaves the heap as it is. At a
  field site (optional = false) the result is a new non-null wrapper, and what it wraps
  is that same object: whether the field site comes second or first. In general, the
  object that is the \<^verbatim>\<open>gql\<close> property of \<open>d\<close> in \<open>s1\<close> is still that property in \<open>s2\<close>, and
  it is what \<^verbatim>\<open>transform\<close> returns.
\<close>

theorem transform_identity:
  assumes "is_object_decl tm d" and "is_object_decl tm d'" and "ident_of d' = ident_of d"
    and "mapM (\<lambda>site. transform tm (fst site) (snd site)) sites s1 = Inr (vs, s2)"
  shows "(transform tm d True s = Inr (g, s1) \<longrightarrow> transform tm d' True s2 = Inr (g, s2)) \<and>
         (transform tm d True s = Inr (g, s1) \<and> get_gql s d = None \<longrightarrow>
            transform tm d' False s2 =
              Inr (GraphQLNonNull (next_gql s2) g, s2\<lparr>next_gql := Suc (next_gql s2)\<rparr>)) \<and>
         (transform tm d False s = Inr (v, s1) \<and> get_gql s d = None \<longrightarrow>
            (\<exists>i x. v = GraphQLNonNull i x \<and> transform tm d' True s2 = Inr (x, s2))) \<and>
         (get_gql s1 d = Some g \<longrightarrow>
            get_gql s2 d' = Some g \<and> transform tm d' True s2 = Inr (g, s2)) \<and>
         ident_of (proxy d props) = ident_of d \<and>
         is_object_decl tm (proxy d props)"
proof (intro conjI impI)
  note k = transforms_keep [OF assms(4)]
  have later: "transform tm d' True s2 = Inr (x, s2)" if "get_gql s1 d = Some x" for x
    using resolve_cached [OF assms(2,3) keeps_get_gql [OF k that]]
    by (simp add: transform_optional)
  {
    assume "transform tm d True s = Inr (g, s1)"
    then have "get_gql s1 d = Some g"
      using resolve_result [OF assms(1), of s g s1] by (simp add: transform_optional)
    then show "transform tm d' True s2 = Inr (g, s2)"
      by (rule later)
  next
    assume a: "transform tm d True s = Inr (g, s1) \<and> get_gql s d = None"
    then have r: "resolve tm d s = Inr (g, s1)"
      by (simp add: transform_optional)
    from resolve_result [OF assms(1) r] have "get_gql s2 d = Some g"
      by (rule keeps_get_gql [OF k])
    from resolve_cached [OF assms(2,3) this] resolve_built [OF assms(1) r] a
    show "transform tm d' False s2 =
        Inr (GraphQLNonNull (next_gql s2) g, s2\<lparr>next_gql := Suc (next_gql s2)\<rparr>)"
      by (simp add: transform_plain)
  next
    assume a: "transform tm d False s = Inr (v, s1) \<and> get_gql s d = None"
    then obtain x u where r: "resolve tm d s = Inr (x, u)"
      by (auto simp: transform.simps split: sum.splits)
    from resolve_built [OF assms(1) r] a have plain: "nullable_type x"
      by simp
    from transform_plain [OF r plain] a
    have v: "v = GraphQLNonNull (next_gql u) x" and s1: "s1 = u\<lparr>next_gql := Suc (next_gql u)\<rparr>"
      by simp_all
    from resolve_result [OF assms(1) r] have "get_gql s1 d = Some x"
      by (simp add: s1 get_gql_def)
    from later [OF this] v
    show "\<exists>i x. v = GraphQLNonNull i x \<and> transform tm d' True s2 = Inr (x, s2)"
      by blast
  next
    assume c: "get_gql s1 d = Some g"
    from keeps_get_gql [OF k c] show "get_gql s2 d' = Some g"
      by (simp add: get_gql_ident [OF assms(3)])
    from c show "transform tm d' True s2 = Inr (g, s2)"
      by (rule later)
  next
    show "ident_of (proxy d props) = ident_of d"
      by (simp add: proxy_same_type)
    from assms(1) show "is_object_decl tm (proxy d props)"
      by (simp add: proxy_same_type)
  }
qed

text \<open>
  A struct, an interface, the schema types they become, and a struct that refers to the
  first at two of its fields, with the interface in between.
\<close>

definition Message :: decl where
  "Message = Tcomb 20 ''Message''
     (Meta ''struct'' (Some ''Message'') None None (Some [(''text'', t_String)]) None)"

definition Textable :: decl where
  "Textable = Tcomb 24 ''Textable''
     (Meta ''interface'' (Some ''Textable'') None None (Some [(''text'', t_String)]) None)"

definition Holder :: decl where
  "Holder = Tcomb 25 ''Holder''
     (Meta ''struct'' (Some ''Holder'') None None
        (Some [(''a'', Message), (''b'', Textable), (''c'', Message)]) None)"

definition Message_gql :: sval where
  "Message_gql = NewType 1 GraphQLObjectType ''Message'' JUndef None
     [(''text'', FieldConfig (GraphQLNonNull 0 (Scalar ''String'')) JUndef JUndef None)]"

definition Textable_gql :: "nat \<Rightarrow> sval" where
  "Textable_gql i = NewType (Suc i) GraphQLInterfaceType ''Textable'' JUndef None
     [(''text'', FieldConfig (GraphQLNonNull i (Scalar ''String'')) JUndef JUndef None)]"

definition heap1 :: heap where
  "heap1 = \<lparr>gql = [(20, Message_gql)], next_gql = 2, next_decl = 100\<rparr>"

definition heap1' :: heap where
  "heap1' = \<lparr>gql = [(24, Textable_gql 2), (20, Message_gql)], next_gql = 5, next_decl = 100\<rparr>"

lemma transform_Message: "transform typeMap Message True heap0 = Inr (Message_gql, heap1)"
  by code_simp

lemma transform_Textable:
  "mapM (\<lambda>site. transform typeMap (fst site) (snd site)) [(Textable, False)] heap1 =
     Inr ([GraphQLNonNull 4 (Textable_gql 2)], heap1')"
  by code_simp

lemma transform_Holder:
  "map_sum id fst (transform typeMap Holder True heap0) =
     Inr (NewType 7 GraphQLObjectType ''Holder'' JUndef None
            [(''a'', FieldConfig (GraphQLNonNull 2 Message_gql) JUndef JUndef None),
             (''b'', FieldConfig (GraphQLNonNull 5 (Textable_gql 3)) JUndef JUndef None),
             (''c'', FieldConfig (GraphQLNonNull 6 Message_gql) JUndef JUndef None)])"
  by code_simp

theorem transform_identity_witness:
  "transform typeMap Message True heap0 = Inr (Message_gql, heap1) \<and>
   mapM (\<lambda>site. transform typeMap (fst site) (snd site)) [(Textable, False)] heap1 =
     Inr ([GraphQLNonNull 4 (Textable_gql 2)], heap1') \<and>
   transform typeMap Message True heap1' = Inr (Message_gql, heap1') \<and>
   transform typeMap
       (proxy Message [(''__typeDesc'', PVal (JStr ''A message'')), (''interfaces'', PDecls [])])
       True heap1' = Inr (Message_gql, heap1') \<and>
   transform typeMap
       (proxy Message [(''__typeDesc'', PVal (JStr ''A message'')), (''interfaces'', PDecls [])])
       False heap1' = Inr (GraphQLNonNull 5 Message_gql, heap1'\<lparr>next_gql := 6\<rparr>) \<and>
   map_sum id fst (transform typeMap Holder True heap0) =
     Inr (NewType 7 GraphQLObjectType ''Holder'' JUndef None
            [(''a'', FieldConfig (GraphQLNonNull 2 Message_gql) JUndef JUndef None),
             (''b'', FieldConfig (GraphQLNonNull 5 (Textable_gql 3)) JUndef JUndef None),
             (''c'', FieldConfig (GraphQLNonNull 6 Message_gql) JUndef JUndef None)])"
proof -
  have o: "is_object_decl typeMap Message"
    by (simp add: is_object_decl_def Message_def example_defs)
  have n: "get_gql heap0 Message = None"
    by (simp add: get_gql_def heap0_def)
  note t = transform_identity [OF o o refl transform_Textable,
      where s = heap0 and g = Message_gql]
  note p = transform_identity [OF o _ _ transform_Textable, where s = heap0 and g = Message_gql
      and d' = "proxy Message [(''__typeDesc'', PVal (JStr ''A message'')), (''interfaces'', PDecls [])]"
      and props = "[(''__typeDesc'', PVal (JStr ''A message'')), (''interfaces'', PDecls [])]"]
  from t p o n transform_Message transform_Textable transform_Holder show ?thesis
    by (simp add: proxy_same_type heap1'_def)
qed

section \<open>Arguments and their default values\<close>

lemma object_arg_result:
  assumes "object_arg tm (k, v) h = Inr ((k', a), h')"
  shows "k' = k \<and> adefaultValue a = jsv_of (getp v ''__val'') \<and>
         adescription a = jsv_of (getp v ''__desc'') \<and> transform tm v False h = Inr (atype a, h')"
  using assms by (auto simp: object_arg.simps split: sum.splits)

text \<open>
  C9, as the code has it. \<^verbatim>\<open>arg(d, null, s)\<close> puts the description alone on the proxy. The
  default value of the schema argument is then the \<^verbatim>\<open>__val\<close> that \<open>d\<close> itself exposes: none
  when \<open>d\<close> exposes none, as every tcomb type does. With a default value \<open>v\<close> other than
  \<^verbatim>\<open>null\<close>, \<open>v\<close> is on the proxy and is the default value of the schema argument.
\<close>

theorem arg_default_value:
  "arg d JNull s = proxy d [(''__desc'', PVal s)] \<and>
   (object_arg tm (k, arg d JNull s) h = Inr ((k', a), h') \<longrightarrow>
      adefaultValue a = jsv_of (getp d ''__val'') \<and> adescription a = s) \<and>
   (object_arg tm (k, arg d JNull s) h = Inr ((k', a), h') \<and> getp d ''__val'' = PVal JUndef \<longrightarrow>
      adefaultValue a = JUndef) \<and>
   getp (Tcomb i dn m) ''__val'' = PVal JUndef \<and>
   (v \<noteq> JNull \<longrightarrow>
      arg d v s = proxy d [(''__val'', PVal v), (''__desc'', PVal s)] \<and>
      (object_arg tm (k, arg d v s) h = Inr ((k', a), h') \<longrightarrow>
         adefaultValue a = v \<and> adescription a = s))"
proof (intro conjI impI)
  show "arg d JNull s = proxy d [(''__desc'', PVal s)]"
    by (simp add: arg_def)
next
  assume "object_arg tm (k, arg d JNull s) h = Inr ((k', a), h')"
  from object_arg_result [OF this]
  show "adefaultValue a = jsv_of (getp d ''__val'')" and "adescription a = s"
    by (simp_all add: arg_def proxy_def)
next
  assume "object_arg tm (k, arg d JNull s) h = Inr ((k', a), h') \<and> getp d ''__val'' = PVal JUndef"
  with object_arg_result [of tm k "arg d JNull s" h k' a h']
  show "adefaultValue a = JUndef"
    by (simp add: arg_def proxy_def)
next
  show "getp (Tcomb i dn m) ''__val'' = PVal JUndef"
    by simp
next
  assume "v \<noteq> JNull"
  then show "arg d v s = proxy d [(''__val'', PVal v), (''__desc'', PVal s)]"
    by (simp add: arg_def)
next
  assume v: "v \<noteq> JNull" and "object_arg tm (k, arg d v s) h = Inr ((k', a), h')"
  from object_arg_result [OF this(2)] v
  show "adefaultValue a = v" and "adescription a = s"
    by (simp_all add: arg_def proxy_def)
qed

lemma object_arg_ten:
  "object_arg typeMap (''y'', arg t_Integer (JNum 10) (JStr ''Set X value'')) heap0 =
     Inr ((''y'', ArgConfig (GraphQLNonNull 0 (Scalar ''Int'')) (JNum 10) (JStr ''Set X value'')),
          heap0\<lparr>next_gql := 1\<rparr>)"
  by (simp add: object_arg.simps transform.simps resolve.simps arg_def proxy_def example_defs)

lemma object_arg_null:
  "object_arg typeMap (''toId'', arg (t_maybe 10 t_ID) JNull (JStr ''limit to a user'')) heap0 =
     Inr ((''toId'', ArgConfig (Scalar ''ID'') JUndef (JStr ''limit to a user'')), heap0)"
  by (simp add: object_arg.simps transform.simps resolve.simps maybe.simps arg_def proxy_def
      example_defs)

theorem arg_default_value_witness:
  "object_arg typeMap (''toId'', arg (t_maybe 10 t_ID) JNull (JStr ''limit to a user'')) heap0 =
     Inr ((''toId'', ArgConfig (Scalar ''ID'') JUndef (JStr ''limit to a user'')), heap0) \<and>
   adefaultValue (ArgConfig (Scalar ''ID'') JUndef (JStr ''limit to a user'')) =
     jsv_of (getp (t_maybe 10 t_ID) ''__val'') \<and>
   object_arg typeMap (''y'', arg t_Integer (JNum 10) (JStr ''Set X value'')) heap0 =
     Inr ((''y'', ArgConfig (GraphQLNonNull 0 (Scalar ''Int'')) (JNum 10) (JStr ''Set X value'')),
          heap0\<lparr>next_gql := 1\<rparr>) \<and>
   adefaultValue (ArgConfig (GraphQLNonNull 0 (Scalar ''Int'')) (JNum 10) (JStr ''Set X value'')) =
     JNum 10"
  using object_arg_null object_arg_ten
    arg_default_value [where d = "t_maybe 10 t_ID" and s = "JStr ''limit to a user''"
      and tm = typeMap and k = "''toId''" and h = heap0 and k' = "''toId''"
      and a = "ArgConfig (Scalar ''ID'') JUndef (JStr ''limit to a user'')" and h' = heap0
      and v = "JNum 10"]
  by (simp add: t_maybe_def)

text \<open>
  The claim as stated fails when the declaration given to \<^verbatim>\<open>arg\<close> carries a default value of
  its own: \<^verbatim>\<open>arg(arg(t.Integer, 10, 'a'), null, 'b')\<close> attaches no default value, and the schema
  argument has the default value 10.
\<close>

theorem arg_default_value_counterexample:
  "arg (arg t_Integer (JNum 10) (JStr ''a'')) JNull (JStr ''b'') =
     proxy (arg t_Integer (JNum 10) (JStr ''a'')) [(''__desc'', PVal (JStr ''b''))] \<and>
   object_arg typeMap (''y'', arg (arg t_Integer (JNum 10) (JStr ''a'')) JNull (JStr ''b'')) heap0 =
     Inr ((''y'', ArgConfig (GraphQLNonNull 0 (Scalar ''Int'')) (JNum 10) (JStr ''b'')),
          heap0\<lparr>next_gql := 1\<rparr>)"
  by (simp add: object_arg.simps transform.simps resolve.simps arg_def proxy_def example_defs)

section \<open>The two shapes of the arguments of fn\<close>

text \<open>
  C10. When \<^verbatim>\<open>args\<close> is a declaration whose \<^verbatim>\<open>meta\<close> has a field mapping, that mapping is the
  \<^verbatim>\<open>__args\<close> of the declaration \<^verbatim>\<open>fn\<close> returns; a declaration without one is itself the
  \<^verbatim>\<open>__args\<close>. A plain mapping is the \<^verbatim>\<open>__args\<close> unchanged, unless it has an argument named
  \<^verbatim>\<open>meta\<close> that exposes a truthy \<^verbatim>\<open>props\<close>, which then is what \<^verbatim>\<open>args.meta.props\<close> reads. The
  declaration returned is a proxy of the output type.
\<close>

theorem fn_args_shapes:
  "(mprops (meta_of a) = Some ps \<longrightarrow>
      getp (fn (ArgsType a) out pub desc) ''__args'' = PArgs ps) \<and>
   (mprops (meta_of a) = None \<longrightarrow>
      getp (fn (ArgsType a) out pub desc) ''__args'' = PDecl a) \<and>
   ((\<forall>x. map_of m ''meta'' = Some x \<longrightarrow> \<not> truthy_prop (getp x ''props'')) \<longrightarrow>
      getp (fn (ArgsMap m) out pub desc) ''__args'' = PArgs m) \<and>
   (map_of m ''meta'' = Some x \<and> truthy_prop (getp x ''props'') \<longrightarrow>
      getp (fn (ArgsMap m) out pub desc) ''__args'' = getp x ''props'') \<and>
   meta_of (fn args out pub desc) = meta_of out \<and>
   ident_of (fn args out pub desc) = ident_of out"
  by (auto simp: fn_def proxy_def split: option.splits)

text \<open>What \<^verbatim>\<open>input('SendMessageInput', 'sendMessage input', {text: t.String})\<close> returns.\<close>

definition SendMessageInput :: decl where
  "SendMessageInput =
     proxy (Tcomb 21 ''SendMessageInput''
              (Meta ''struct'' (Some ''SendMessageInput'') None None (Some [(''text'', t_String)]) None))
       [(''__typeDesc'', PVal (JStr ''sendMessage input'')), (''__input'', PVal (JBool True))]"

theorem fn_args_shapes_witness:
  "getp (fn (ArgsType SendMessageInput) Message (PVal JNull) JUndef) ''__args'' =
     PArgs [(''text'', t_String)] \<and>
   getp (fn (ArgsType (t_list 11 t_String)) Message (PVal JNull) JUndef) ''__args'' =
     PDecl (t_list 11 t_String) \<and>
   getp (fn (ArgsMap [(''id'', t_ID)]) Message (PVal JNull) JUndef) ''__args'' =
     PArgs [(''id'', t_ID)]"
  using fn_args_shapes [where a = SendMessageInput and ps = "[(''text'', t_String)]"
      and out = Message and pub = "PVal JNull" and desc = JUndef and m = "[(''id'', t_ID)]"]
    fn_args_shapes [where a = "t_list 11 t_String" and out = Message and pub = "PVal JNull"
      and desc = JUndef]
  by (simp add: SendMessageInput_def proxy_def t_list_def)

section \<open>Merging resolver and permission tables\<close>

text \<open>
  A table of the shape the two registration calls take: type names, under each a mapping
  of field names to leaves, no key twice in one object. \<open>leaf_at\<close> reads the leaf at a
  type name and field name.
\<close>

fun is_leaf :: "'a table \<Rightarrow> bool" where
  "is_leaf (Leaf x) = True"
| "is_leaf (Table t) = False"

fun fields_table :: "'a table \<Rightarrow> bool" where
  "fields_table (Leaf x) = False"
| "fields_table (Table fs) = (distinct (map fst fs) \<and> list_all (\<lambda>kv. is_leaf (snd kv)) fs)"

definition two_level :: "'a table obj \<Rightarrow> bool" where
  "two_level ob = (distinct (map fst ob) \<and> list_all (\<lambda>kv. fields_table (snd kv)) ob)"

definition leaf_at :: "'a table obj \<Rightarrow> string \<Rightarrow> string \<Rightarrow> 'a option" where
  "leaf_at t T f =
     (case map_of t T of
        Some (Table fs) \<Rightarrow> (case map_of fs f of Some (Leaf x) \<Rightarrow> Some x | _ \<Rightarrow> None)
      | _ \<Rightarrow> None)"

lemma map_of_put: "map_of (put m k v) = (map_of m)(k \<mapsto> v)"
  by (induction m) auto


lemma deepExtend_Nil: "deepExtend t [] = t"
  by (simp add: deepExtend_def)

lemma deepExtend_Cons:
  "deepExtend t ((k, v) # ob) = deepExtend (put t k (merge (map_of t k) v)) ob"
  by (simp add: deepExtend_def)

lemma merge_Table:
  "merge src (Table ob) = Table (deepExtend (case src of Some (Table t) \<Rightarrow> t | _ \<Rightarrow> []) ob)"
  by (simp add: deepExtend_def)

lemma deepExtend_other: "k \<notin> fst ` set ob \<Longrightarrow> map_of (deepExtend t ob) k = map_of t k"
proof (induction ob arbitrary: t)
  case Nil
  then show ?case by (simp add: deepExtend_Nil)
next
  case (Cons kv ob)
  obtain k' v' where kv: "kv = (k', v')" by (cases kv)
  with Cons.prems have "k \<noteq> k'" and "k \<notin> fst ` set ob" by auto
  with Cons.IH [of "put t k' (merge (map_of t k') v')"] show ?case
    by (simp add: kv deepExtend_Cons map_of_put)
qed

lemma deepExtend_hit:
  "distinct (map fst ob) \<Longrightarrow> map_of ob k = Some v \<Longrightarrow>
   map_of (deepExtend t ob) k = Some (merge (map_of t k) v)"
proof (induction ob arbitrary: t)
  case Nil
  then show ?case by simp
next
  case (Cons kv ob)
  obtain k' v' where kv: "kv = (k', v')" by (cases kv)
  show ?case
  proof (cases "k' = k")
    case True
    with Cons.prems kv have "v' = v" and "k \<notin> fst ` set ob" by auto
    with True show ?thesis
      by (simp add: kv deepExtend_Cons deepExtend_other map_of_put)
  next
    case False
    with Cons.prems kv have "distinct (map fst ob)" and "map_of ob k = Some v" by auto
    from Cons.IH [OF this, of "put t k' (merge (map_of t k') v')"] False show ?thesis
      by (simp add: kv deepExtend_Cons map_of_put)
  qed
qed

lemma map_of_None_keys: "map_of ob k = None \<Longrightarrow> k \<notin> fst ` set ob"
  by (simp add: map_of_eq_None_iff)

lemma list_all_map_of: "list_all P ob \<Longrightarrow> map_of ob k = Some v \<Longrightarrow> P (k, v)"
  by (auto simp: list_all_iff dest: map_of_SomeD)

lemma deepExtend_leaf_at:
  assumes "two_level ob"
  shows "leaf_at (deepExtend t ob) T f =
           (case leaf_at ob T f of Some y \<Rightarrow> Some y | None \<Rightarrow> leaf_at t T f)"
proof (cases "map_of ob T")
  case None
  then have "map_of (deepExtend t ob) T = map_of t T"
    by (simp add: deepExtend_other map_of_None_keys)
  with None show ?thesis by (simp add: leaf_at_def)
next
  case (Some v)
  from assms have d: "distinct (map fst ob)" and a: "list_all (\<lambda>kv. fields_table (snd kv)) ob"
    by (simp_all add: two_level_def)
  from list_all_map_of [OF a Some] obtain fs where v: "v = Table fs"
    and dfs: "distinct (map fst fs)" and lfs: "list_all (\<lambda>kv. is_leaf (snd kv)) fs"
    by (cases v) auto
  define base where "base = (case map_of t T of Some (Table b) \<Rightarrow> b | _ \<Rightarrow> [])"
  have base: "(case map_of base f of Some (Leaf x) \<Rightarrow> Some x | _ \<Rightarrow> None) = leaf_at t T f"
    by (auto simp: base_def leaf_at_def split: option.splits table.splits)
  have hit: "map_of (deepExtend t ob) T = Some (Table (deepExtend base fs))"
    using deepExtend_hit [OF d Some, of t] unfolding v merge_Table base_def by simp
  show ?thesis
  proof (cases "map_of fs f")
    case None
    then have "map_of (deepExtend base fs) f = map_of base f"
      by (simp add: deepExtend_other map_of_None_keys)
    with None Some v hit base show ?thesis
      by (simp add: leaf_at_def)
  next
    case (Some x)
    from list_all_map_of [OF lfs Some] obtain y where x: "x = Leaf y"
      by (cases x) auto
    from deepExtend_hit [OF dfs Some, of base] x
    have "map_of (deepExtend base fs) f = Some (Leaf y)" by simp
    with Some x \<open>map_of ob T = Some v\<close> v hit show ?thesis
      by (simp add: leaf_at_def)
  qed
qed

text \<open>
  C5. After \<^verbatim>\<open>addResolvers\<close> or \<^verbatim>\<open>addPermissions\<close> with a table of that shape, the leaf at any
  type name and field name is the one the argument has there, when it has one, and
  otherwise the one the table had before (none, for permissions not yet registered). So
  a later call overwrites exactly the leaves it names and every other leaf stays.
\<close>

theorem add_deep_merge:
  assumes "two_level rs" and "two_level ps"
  shows "leaf_at (resolvers (addResolvers rs a)) T f =
           (case leaf_at rs T f of Some y \<Rightarrow> Some y | None \<Rightarrow> leaf_at (resolvers a) T f) \<and>
         leaf_at (or_empty (shield (addPermissions ps a))) T f =
           (case leaf_at ps T f of Some y \<Rightarrow> Some y | None \<Rightarrow> leaf_at (or_empty (shield a)) T f)"
proof
  show "leaf_at (resolvers (addResolvers rs a)) T f =
           (case leaf_at rs T f of Some y \<Rightarrow> Some y | None \<Rightarrow> leaf_at (resolvers a) T f)"
    using assms(1) by (simp add: addResolvers_def deepExtend_leaf_at)
  show "leaf_at (or_empty (shield (addPermissions ps a))) T f =
           (case leaf_at ps T f of Some y \<Rightarrow> Some y | None \<Rightarrow> leaf_at (or_empty (shield a)) T f)"
  proof (cases "shield a")
    case None
    then show ?thesis
      by (simp add: addPermissions_def or_empty_def leaf_at_def split: option.splits)
  next
    case (Some sh)
    with assms(2) show ?thesis
      by (simp add: addPermissions_def or_empty_def deepExtend_leaf_at cong: option.case_cong)
  qed
qed

theorem add_deep_merge_witness:
  "leaf_at (resolvers
       (addResolvers [(''Query'', Table [(''b'', Leaf (2::nat))])]
          (addResolvers [(''Query'', Table [(''a'', Leaf 1)])]
             (TCombGraphQLSchema :: (nat, nat) tcomb_schema)))) ''Query'' ''a'' = Some 1 \<and>
   leaf_at (resolvers
       (addResolvers [(''Query'', Table [(''b'', Leaf (2::nat))])]
          (addResolvers [(''Query'', Table [(''a'', Leaf 1)])]
             (TCombGraphQLSchema :: (nat, nat) tcomb_schema)))) ''Query'' ''b'' = Some 2 \<and>
   leaf_at (or_empty (shield
       (addPermissions [(''Query'', Table [(''a'', Leaf (3::nat))])]
          (addPermissions [(''Query'', Table [(''a'', Leaf 1), (''c'', Leaf 2)])]
             (TCombGraphQLSchema :: (nat, nat) tcomb_schema))))) ''Query'' ''a'' = Some 3 \<and>
   leaf_at (or_empty (shield
       (addPermissions [(''Query'', Table [(''a'', Leaf (3::nat))])]
          (addPermissions [(''Query'', Table [(''a'', Leaf 1), (''c'', Leaf 2)])]
             (TCombGraphQLSchema :: (nat, nat) tcomb_schema))))) ''Query'' ''c'' = Some 2"
proof -
  have r: "two_level [(''Query'', Table [(''b'', Leaf (2::nat))])]"
    and p: "two_level [(''Query'', Table [(''a'', Leaf (3::nat))])]"
    by (simp_all add: two_level_def)
  note m = add_deep_merge [OF r p, where T = "''Query''"
      and a = "addResolvers [(''Query'', Table [(''a'', Leaf 1)])]
                 (addPermissions [(''Query'', Table [(''a'', Leaf 1), (''c'', Leaf 2)])]
                    (TCombGraphQLSchema :: (nat, nat) tcomb_schema))"]
  from m [where f = "''a''"] m [where f = "''b''"] m [where f = "''c''"] show ?thesis
    by (simp add: addResolvers_def addPermissions_def TCombGraphQLSchema_def deepExtend_def
        leaf_at_def or_empty_def)
qed

section \<open>Sequences of registration calls\<close>

text \<open>
  The four registration methods as values, and the state of a new
  \<^verbatim>\<open>TCombGraphQLSchema\<close> after a sequence of such calls.
\<close>

datatype ('r, 'p) call =
    AddMutations "decl obj"
  | AddQueries "decl obj"
  | AddResolvers "'r table obj"
  | AddPermissions "'p table obj"

fun perform :: "('r, 'p) tcomb_schema \<Rightarrow> ('r, 'p) call \<Rightarrow> ('r, 'p) tcomb_schema" where
  "perform a (AddMutations ms) = addMutations ms a"
| "perform a (AddQueries qs) = addQueries qs a"
| "perform a (AddResolvers rs) = addResolvers rs a"
| "perform a (AddPermissions ps) = addPermissions ps a"

definition run :: "('r, 'p) call list \<Rightarrow> ('r, 'p) tcomb_schema" where
  "run cs = foldl perform TCombGraphQLSchema cs"

text \<open>The permission tables of a sequence of calls, in order, and their merge.\<close>

fun permissions_of :: "('r, 'p) call list \<Rightarrow> 'p table obj list" where
  "permissions_of [] = []"
| "permissions_of (AddPermissions ps # cs) = ps # permissions_of cs"
| "permissions_of (c # cs) = permissions_of cs"

definition merged_permissions :: "('r, 'p) call list \<Rightarrow> 'p table obj option" where
  "merged_permissions cs =
     (case permissions_of cs of [] \<Rightarrow> None | p # ps \<Rightarrow> Some (foldl deepExtend p ps))"

definition publishes :: "decl obj \<Rightarrow> bool" where
  "publishes ms = list_ex (\<lambda>kt. truthy_prop (getp (snd kt) ''__publishType'')) ms"

lemma run_Nil: "run [] = TCombGraphQLSchema"
  by (simp add: run_def)

lemma run_snoc: "run (cs @ [c]) = perform (run cs) c"
  by (simp add: run_def)

subsection \<open>What each call changes\<close>

lemma addQueries_fold:
  "queries (foldl (\<lambda>a (k, type). a\<lparr>queries := Some (obj_set (or_empty (queries a)) k type)\<rparr>) a qs) = None
     \<longleftrightarrow> queries a = None \<and> qs = []"
  "mutations (foldl (\<lambda>a (k, type). a\<lparr>queries := Some (obj_set (or_empty (queries a)) k type)\<rparr>) a qs) = mutations a"
  "subscriptions (foldl (\<lambda>a (k, type). a\<lparr>queries := Some (obj_set (or_empty (queries a)) k type)\<rparr>) a qs) = subscriptions a"
  "shield (foldl (\<lambda>a (k, type). a\<lparr>queries := Some (obj_set (or_empty (queries a)) k type)\<rparr>) a qs) = shield a"
  "resolvers (foldl (\<lambda>a (k, type). a\<lparr>queries := Some (obj_set (or_empty (queries a)) k type)\<rparr>) a qs) = resolvers a"
  by (induction qs arbitrary: a; simp split: prod.splits)+

lemma addQueries_frame:
  "queries (addQueries qs a) \<noteq> None"
  "mutations (addQueries qs a) = mutations a"
  "subscriptions (addQueries qs a) = subscriptions a"
  "shield (addQueries qs a) = shield a"
  "resolvers (addQueries qs a) = resolvers a"
  by (simp_all add: addQueries_def addQueries_fold)

lemma addMutation_frame:
  "mutations (addMutation a kt) \<noteq> None"
  "queries (addMutation a kt) = queries a"
  "shield (addMutation a kt) = shield a"
  "resolvers (addMutation a kt) = resolvers a"
  "subscriptions (addMutation a kt) = None \<longleftrightarrow>
     subscriptions a = None \<and> \<not> truthy_prop (getp (snd kt) ''__publishType'')"
  by (simp_all add: addMutation_def Let_def)

lemma addMutation_fold:
  "mutations (foldl addMutation a ms) = None \<longleftrightarrow> mutations a = None \<and> ms = []"
  "queries (foldl addMutation a ms) = queries a"
  "shield (foldl addMutation a ms) = shield a"
  "resolvers (foldl addMutation a ms) = resolvers a"
  "subscriptions (foldl addMutation a ms) = None \<longleftrightarrow> subscriptions a = None \<and> \<not> publishes ms"
  by (induction ms arbitrary: a; auto simp: addMutation_frame publishes_def)+

lemma addMutations_frame:
  "mutations (addMutations ms a) \<noteq> None"
  "queries (addMutations ms a) = queries a"
  "shield (addMutations ms a) = shield a"
  "resolvers (addMutations ms a) = resolvers a"
  "subscriptions (addMutations ms a) = None \<longleftrightarrow> subscriptions a = None \<and> \<not> publishes ms"
  by (simp_all add: addMutations_def addMutation_fold)

lemma addResolvers_frame:
  "mutations (addResolvers rs a) = mutations a"
  "queries (addResolvers rs a) = queries a"
  "subscriptions (addResolvers rs a) = subscriptions a"
  "shield (addResolvers rs a) = shield a"
  by (simp_all add: addResolvers_def)

lemma addPermissions_frame:
  "mutations (addPermissions ps a) = mutations a"
  "queries (addPermissions ps a) = queries a"
  "subscriptions (addPermissions ps a) = subscriptions a"
  "resolvers (addPermissions ps a) = resolvers a"
  "shield (addPermissions ps a) \<noteq> None"
  by (simp_all add: addPermissions_def split: option.splits)

lemmas frames = addQueries_frame addMutations_frame addResolvers_frame addPermissions_frame

lemma run_queries: "queries (run cs) = None \<longleftrightarrow> (\<forall>qs. AddQueries qs \<notin> set cs)"
proof (induction cs rule: rev_induct)
  case Nil
  then show ?case by (simp add: run_Nil TCombGraphQLSchema_def)
next
  case (snoc c cs)
  then show ?case by (cases c) (auto simp: run_snoc frames)
qed

lemma run_mutations: "mutations (run cs) = None \<longleftrightarrow> (\<forall>ms. AddMutations ms \<notin> set cs)"
proof (induction cs rule: rev_induct)
  case Nil
  then show ?case by (simp add: run_Nil TCombGraphQLSchema_def)
next
  case (snoc c cs)
  then show ?case by (cases c) (auto simp: run_snoc frames)
qed

lemma run_subscriptions:
  "subscriptions (run cs) = None \<longleftrightarrow> (\<forall>ms. AddMutations ms \<in> set cs \<longrightarrow> \<not> publishes ms)"
proof (induction cs rule: rev_induct)
  case Nil
  then show ?case by (simp add: run_Nil TCombGraphQLSchema_def)
next
  case (snoc c cs)
  then show ?case by (cases c) (auto simp: run_snoc frames)
qed

lemma permissions_of_snoc:
  "permissions_of (cs @ [c]) =
     permissions_of cs @ (case c of AddPermissions ps \<Rightarrow> [ps] | _ \<Rightarrow> [])"
  by (induction cs rule: permissions_of.induct) (auto split: call.splits)

lemma permissions_of_empty: "permissions_of cs = [] \<longleftrightarrow> (\<forall>ps. AddPermissions ps \<notin> set cs)"
  by (induction cs rule: permissions_of.induct) auto

lemma run_shield: "shield (run cs) = merged_permissions cs"
proof (induction cs rule: rev_induct)
  case Nil
  then show ?case by (simp add: run_Nil TCombGraphQLSchema_def merged_permissions_def)
next
  case (snoc c cs)
  show ?case
  proof (cases c)
    case (AddPermissions ps)
    with snoc show ?thesis
      by (cases "permissions_of cs")
        (simp_all add: run_snoc addPermissions_def merged_permissions_def permissions_of_snoc)
  qed (use snoc in \<open>simp_all add: run_snoc frames merged_permissions_def permissions_of_snoc\<close>)
qed

subsection \<open>What toGraphQL returns\<close>

lemma root_None: "root tm m nm s = Inr (r, s') \<Longrightarrow> (r = None \<longleftrightarrow> m = None)"
  by (auto simp: root_def Let_def split: option.splits prod.splits sum.splits)

lemma toGraphQL_result:
  assumes "toGraphQL tm adapt a s = Inr (sch, s')"
  shows "\<exists>sch0. sch = (case adapt of Some f \<Rightarrow> f sch0 | None \<Rightarrow> sch0) \<and>
           (query sch0 = None \<longleftrightarrow> queries a = None) \<and>
           (mutation sch0 = None \<longleftrightarrow> mutations a = None) \<and>
           (subscription sch0 = None \<longleftrightarrow> subscriptions a = None) \<and>
           resolveFunctions sch0 = resolvers a \<and>
           middleware sch0 = map_option (\<lambda>sh. (sh, ''Permission denied'')) (shield a)"
proof -
  from assms obtain q s1 where q: "root tm (queries a) ''Query'' s = Inr (q, s1)"
    by (auto simp: toGraphQL_def split: sum.splits)
  from assms q obtain m s2 where m: "root tm (mutations a) ''Mutation'' s1 = Inr (m, s2)"
    by (auto simp: toGraphQL_def split: sum.splits)
  define sch0 where "sch0 sub = \<lparr>query = q, mutation = m, subscription = sub,
      resolveFunctions = resolvers a,
      middleware = map_option (\<lambda>sh. (sh, ''Permission denied'')) (shield a)\<rparr>" for sub
  from assms q m obtain sub where
    sub: "(subscriptions a = None \<and> sub = None) \<or>
          (\<exists>ps ds. subscriptions a = Some ps \<and> types_of ps = Some ds \<and>
                   root tm (Some ds) ''Subscription'' s2 = Inr (sub, s'))"
    and sch: "sch = (case adapt of Some f \<Rightarrow> f (sch0 sub) | None \<Rightarrow> sch0 sub)"
    by (auto simp: toGraphQL_def Let_def sch0_def split: sum.splits option.splits)
  from sub have "sub = None \<longleftrightarrow> subscriptions a = None"
    by (auto dest: root_None)
  with root_None [OF q] root_None [OF m] sch show ?thesis
    by (intro exI [of _ "sch0 sub"]) (simp add: sch0_def)
qed

section \<open>Root types\<close>

text \<open>
  C3, as the code has it. The schema \<^verbatim>\<open>toGraphQL\<close> builds (before the \<^verbatim>\<open>adapt\<close> callback, if
  there is one, gets it) has a root type exactly for each registration map that is set,
  whether or not the map is empty. On a new assembler the query map is set by the first
  \<^verbatim>\<open>addQueries\<close>, the mutation map by the first \<^verbatim>\<open>addMutations\<close>, the subscription map by the
  first mutation registered with a truthy publish type. So an assembler on which only
  queries were registered gives a Query root type and no Mutation or Subscription type.
\<close>

theorem root_types:
  assumes "toGraphQL tm adapt a s = Inr (sch, s')"
  shows "(\<exists>sch0. sch = (case adapt of Some f \<Rightarrow> f sch0 | None \<Rightarrow> sch0) \<and>
            (query sch0 = None \<longleftrightarrow> queries a = None) \<and>
            (mutation sch0 = None \<longleftrightarrow> mutations a = None) \<and>
            (subscription sch0 = None \<longleftrightarrow> subscriptions a = None)) \<and>
         (queries (run cs) = None \<longleftrightarrow> (\<forall>qs. AddQueries qs \<notin> set cs)) \<and>
         (mutations (run cs) = None \<longleftrightarrow> (\<forall>ms. AddMutations ms \<notin> set cs)) \<and>
         (subscriptions (run cs) = None \<longleftrightarrow>
            (\<forall>ms. AddMutations ms \<in> set cs \<longrightarrow> \<not> publishes ms))"
proof (intro conjI)
  from toGraphQL_result [OF assms]
  show "\<exists>sch0. sch = (case adapt of Some f \<Rightarrow> f sch0 | None \<Rightarrow> sch0) \<and>
            (query sch0 = None \<longleftrightarrow> queries a = None) \<and>
            (mutation sch0 = None \<longleftrightarrow> mutations a = None) \<and>
            (subscription sch0 = None \<longleftrightarrow> subscriptions a = None)"
    by (elim exE conjE, intro exI conjI)
qed (rule run_queries run_mutations run_subscriptions)+

section \<open>The authorization middleware\<close>

text \<open>
  C6. \<^verbatim>\<open>toGraphQL\<close> returns exactly when it would return had no permissions been
  registered, and the schema it then builds (before the \<^verbatim>\<open>adapt\<close> callback, if there is
  one, gets it) is the schema of that case, which has no middleware, with the shield of
  the permission table and the fallback \<^verbatim>\<open>'Permission denied'\<close> put on it when the table
  is set, and as it is when the table is not set. On a new assembler the table is set by
  the first \<^verbatim>\<open>addPermissions\<close> and is the merge of all the permission tables registered,
  in order.
\<close>

theorem authorization_middleware:
  "toGraphQL tm adapt a s =
     (case toGraphQL tm None (a\<lparr>shield := None\<rparr>) s of
        Inl e \<Rightarrow> Inl e
      | Inr (sch0, s') \<Rightarrow>
          Inr ((case adapt of Some f \<Rightarrow> f | None \<Rightarrow> id)
                 (case shield a of
                    None \<Rightarrow> sch0
                  | Some sh \<Rightarrow> sch0\<lparr>middleware := Some (sh, ''Permission denied'')\<rparr>), s')) \<and>
   (\<forall>sch0 s'. toGraphQL tm None (a\<lparr>shield := None\<rparr>) s = Inr (sch0, s') \<longrightarrow>
      middleware sch0 = None) \<and>
   shield (run cs) = merged_permissions cs \<and>
   (shield (run cs) = None \<longleftrightarrow> (\<forall>ps. AddPermissions ps \<notin> set cs))"
proof (intro conjI allI impI)
  show "toGraphQL tm adapt a s =
     (case toGraphQL tm None (a\<lparr>shield := None\<rparr>) s of
        Inl e \<Rightarrow> Inl e
      | Inr (sch0, s') \<Rightarrow>
          Inr ((case adapt of Some f \<Rightarrow> f | None \<Rightarrow> id)
                 (case shield a of
                    None \<Rightarrow> sch0
                  | Some sh \<Rightarrow> sch0\<lparr>middleware := Some (sh, ''Permission denied'')\<rparr>), s'))"
    by (simp add: toGraphQL_def Let_def split: sum.splits option.splits)
next
  fix sch0 s'
  assume "toGraphQL tm None (a\<lparr>shield := None\<rparr>) s = Inr (sch0, s')"
  from toGraphQL_result [OF this] show "middleware sch0 = None"
    by simp
next
  show "shield (run cs) = merged_permissions cs"
    by (rule run_shield)
  show "shield (run cs) = None \<longleftrightarrow> (\<forall>ps. AddPermissions ps \<notin> set cs)"
    by (simp add: run_shield merged_permissions_def permissions_of_empty [symmetric]
        split: list.splits)
qed

section \<open>The examples of the repository\<close>

text \<open>The secure example of the repository, and a registration of queries alone.\<close>

definition RandomInt :: decl where
  "RandomInt = Tcomb 22 ''RandomInt''
     (Meta ''struct'' (Some ''RandomInt'') None None (Some [(''int'', t_Integer)]) None)"

definition Query_gql :: sval where
  "Query_gql = NewType 3 GraphQLObjectType ''Query'' JUndef None
     [(''randomInt'',
       FieldConfig
         (GraphQLNonNull 2
           (NewType 1 GraphQLObjectType ''RandomInt'' JUndef None
             [(''int'', FieldConfig (GraphQLNonNull 0 (Scalar ''Int'')) JUndef JUndef None)]))
         JUndef JUndef (Some []))]"

definition heap2 :: heap where
  "heap2 =
     \<lparr>gql = [(100, Query_gql),
             (22, NewType 1 GraphQLObjectType ''RandomInt'' JUndef None
                    [(''int'', FieldConfig (GraphQLNonNull 0 (Scalar ''Int'')) JUndef JUndef None)])],
      next_gql = 4, next_decl = 101\<rparr>"

definition queries_only :: "(string, string) call list" where
  "queries_only = [AddQueries [(''randomInt'', fn (ArgsMap []) RandomInt (PVal JUndef) JUndef)]]"

definition secure :: "(string, string) call list" where
  "secure =
    [AddQueries [(''randomInt'', fn (ArgsMap []) RandomInt (PVal JUndef) JUndef)],
     AddResolvers [(''Query'', Table [(''randomInt'', Leaf ''randomInt'')])],
     AddPermissions [(''Query'', Table [(''randomInt'', Leaf ''isAuthenticated'')])]]"

lemma toGraphQL_queries_only:
  "toGraphQL typeMap None (run queries_only) heap0 =
     Inr (\<lparr>query = Some Query_gql, mutation = None, subscription = None,
            resolveFunctions = [], middleware = None\<rparr>, heap2)"
  by code_simp

lemma toGraphQL_secure:
  "toGraphQL typeMap None (run secure) heap0 =
     Inr (\<lparr>query = Some Query_gql, mutation = None, subscription = None,
            resolveFunctions = [(''Query'', Table [(''randomInt'', Leaf ''randomInt'')])],
            middleware = Some ([(''Query'', Table [(''randomInt'', Leaf ''isAuthenticated'')])],
                               ''Permission denied'')\<rparr>, heap2)"
  by code_simp

theorem root_types_witness:
  "toGraphQL typeMap None (run queries_only) heap0 =
     Inr (\<lparr>query = Some Query_gql, mutation = None, subscription = None,
            resolveFunctions = [], middleware = None\<rparr>, heap2) \<and>
   queries (run queries_only) \<noteq> None \<and>
   mutations (run queries_only) = None \<and>
   subscriptions (run queries_only) = None"
  using toGraphQL_queries_only
    root_types [OF toGraphQL_queries_only, where cs = queries_only]
  by (simp add: queries_only_def)

text \<open>
  The claim as stated fails for a map that is set and empty: after \<^verbatim>\<open>addMutations({})\<close> the
  mutation map is the empty object, and the schema has a Mutation root type, without
  fields.
\<close>

theorem root_types_counterexample:
  "mutations (run [AddMutations []] :: (string, string) tcomb_schema) = Some [] \<and>
   toGraphQL typeMap None (run [AddMutations []] :: (string, string) tcomb_schema) heap0 =
     Inr (\<lparr>query = None,
            mutation = Some (NewType 0 GraphQLObjectType ''Mutation'' JUndef None []),
            subscription = None, resolveFunctions = [], middleware = None\<rparr>,
          \<lparr>gql = [(100, NewType 0 GraphQLObjectType ''Mutation'' JUndef None [])],
            next_gql = 1, next_decl = 101\<rparr>)"
  by code_simp


lemma toGraphQL_secure_unshielded:
  "toGraphQL typeMap None ((run secure)\<lparr>shield := None\<rparr>) heap0 =
     Inr (\<lparr>query = Some Query_gql, mutation = None, subscription = None,
            resolveFunctions = [(''Query'', Table [(''randomInt'', Leaf ''randomInt'')])],
            middleware = None\<rparr>, heap2)"
  by code_simp

theorem authorization_middleware_witness:
  "toGraphQL typeMap None (run secure) heap0 =
     Inr (\<lparr>query = Some Query_gql, mutation = None, subscription = None,
            resolveFunctions = [(''Query'', Table [(''randomInt'', Leaf ''randomInt'')])],
            middleware = Some ([(''Query'', Table [(''randomInt'', Leaf ''isAuthenticated'')])],
                               ''Permission denied'')\<rparr>, heap2) \<and>
   toGraphQL typeMap None (run queries_only) heap0 =
     Inr (\<lparr>query = Some Query_gql, mutation = None, subscription = None,
            resolveFunctions = [], middleware = None\<rparr>, heap2) \<and>
   shield (run secure) = Some [(''Query'', Table [(''randomInt'', Leaf ''isAuthenticated'')])] \<and>
   shield (run queries_only) = None"
proof -
  note a = authorization_middleware [where tm = typeMap and adapt = None and a = "run secure"
      and s = heap0 and cs = secure]
  note b = authorization_middleware [where tm = typeMap and adapt = None
      and a = "run queries_only" and s = heap0 and cs = queries_only]
  from a have 1: "shield (run secure) = merged_permissions secure"
    by (elim conjE)
  from b have 2: "shield (run queries_only) = merged_permissions queries_only"
    by (elim conjE)
  have 3: "merged_permissions secure =
      Some [(''Query'', Table [(''randomInt'', Leaf ''isAuthenticated'')])]"
    by (simp add: merged_permissions_def secure_def)
  have 4: "merged_permissions queries_only = None"
    by (simp add: merged_permissions_def queries_only_def)
  from a have "toGraphQL typeMap None (run secure) heap0 =
     (case toGraphQL typeMap None ((run secure)\<lparr>shield := None\<rparr>) heap0 of
        Inl e \<Rightarrow> Inl e
      | Inr (sch0, s') \<Rightarrow>
          Inr ((case None of Some f \<Rightarrow> f | None \<Rightarrow> id)
                 (case shield (run secure) of
                    None \<Rightarrow> sch0
                  | Some sh \<Rightarrow> sch0\<lparr>middleware := Some (sh, ''Permission denied'')\<rparr>), s'))"
    by (elim conjE)
  then have 5: "toGraphQL typeMap None (run secure) heap0 =
     Inr (\<lparr>query = Some Query_gql, mutation = None, subscription = None,
            resolveFunctions = [(''Query'', Table [(''randomInt'', Leaf ''randomInt'')])],
            middleware = Some ([(''Query'', Table [(''randomInt'', Leaf ''isAuthenticated'')])],
                               ''Permission denied'')\<rparr>, heap2)"
    by (simp add: toGraphQL_secure_unshielded 1 3)
  from 5 toGraphQL_queries_only show ?thesis
    by (simp add: 1 2 3 4)
qed

section \<open>Subscriptions derived from mutations\<close>

subsection \<open>Assignments to a property\<close>







subsection \<open>The loop of addMutations\<close>




subsection \<open>The keys of the subscriptions\<close>







subsection \<open>The fields of a root type\<close>









text \<open>
  The mutation of the basic example, \<^verbatim>\<open>sendMessage\<close>, whose publish type is \<^verbatim>\<open>messageSent\<close>,
  and the schema of an assembler that got this mutation and nothing else.
\<close>

definition SendMessageOutput :: decl where
  "SendMessageOutput =
     proxy (Tcomb 23 ''SendMessageOutput''
              (Meta ''struct'' (Some ''SendMessageOutput'') None None
                 (Some [(''sent'', t_Boolean)]) None))
       [(''__typeDesc'', PVal (JStr ''sendMessage response'')), (''interfaces'', PDecls [])]"

definition messageSent :: decl where
  "messageSent =
     fn (ArgsMap [(''toId'', arg (t_maybe 10 t_ID) JNull (JStr ''optionally limit to a user''))])
        Message (PVal JUndef) JUndef"

definition sendMessage :: decl where
  "sendMessage =
     fn (ArgsMap [(''input'', SendMessageInput)]) SendMessageOutput (PDecl messageSent)
        (JStr ''Send a message'')"

lemma builders_examples:
  "fst (input ''SendMessageInput'' (JStr ''sendMessage input'') [(''text'', t_String)]
          \<lparr>gql = [], next_gql = 0, next_decl = 21\<rparr>) = SendMessageInput"
  "fst (type ''SendMessageOutput'' (JStr ''sendMessage response'') [(''sent'', t_Boolean)] []
          \<lparr>gql = [], next_gql = 0, next_decl = 23\<rparr>) = SendMessageOutput"
  "fst (t_struct [(''text'', t_String)] ''Message'' \<lparr>gql = [], next_gql = 0, next_decl = 20\<rparr>) =
     Message"
  by (simp_all add: input_def type_def t_struct_def SendMessageInput_def SendMessageOutput_def
      Message_def)













end
